theory Spec2Isabelle
  imports Main "HOL-Library.Char_ord" "HOL-Library.List_Lexorder" "HOL-Library.Sublist"
begin

section \<open>JavaScript values used by \<^verbatim>\<open>src/lib/grammar.js\<close>\<close>

text \<open>
  A JavaScript string is a \<open>string\<close>; a \<open>char\<close> stands for a UTF-16 code unit below 256,
  and \<open>code\<close> reads its number. The characters that the Isabelle string syntax cannot
  hold are written by their code: the backslash, the double quote and the single quote.
\<close>

definition code :: "char \<Rightarrow> nat" where
  "code c = of_char c"

abbreviation (input) bslash :: char where
  "bslash \<equiv> CHR 0x5C"

abbreviation (input) dquote :: char where
  "dquote \<equiv> CHR 0x22"

abbreviation (input) squote :: char where
  "squote \<equiv> CHR 0x27"

text \<open>\<^verbatim>\<open>Array.prototype.join(sep)\<close> on an array of strings.\<close>

fun join :: "string \<Rightarrow> string list \<Rightarrow> string" where
  "join sep [] = []"
| "join sep [x] = x"
| "join sep (x # y # ys) = x @ sep @ join sep (y # ys)"

text \<open>
  A plain object whose values are strings: its own properties in insertion order.
  \<open>obj_set\<close> is the assignment \<^verbatim>\<open>o[k] = v\<close>: an existing key keeps its place.
\<close>

type_synonym js_object = "(string \<times> string) list"

fun obj_set :: "js_object \<Rightarrow> string \<Rightarrow> string \<Rightarrow> js_object" where
  "obj_set [] k v = [(k, v)]"
| "obj_set ((k', v') # kvs) k v = (if k' = k then (k, v) # kvs else (k', v') # obj_set kvs k v)"

text \<open>
  The values a property read \<^verbatim>\<open>o[k]\<close> of such an object can give: a string, a function
  inherited from \<^verbatim>\<open>Object.prototype\<close>, or \<^verbatim>\<open>undefined\<close>.
\<close>

datatype jsval = Undefined | Str string | Inherited string

text \<open>
  The properties every object literal inherits from \<^verbatim>\<open>Object.prototype\<close> (ECMAScript
  15.2.4 and Annex B.2.2); each is an object, hence truthy.
\<close>

definition Object_prototype :: "string list" where
  "Object_prototype =
    [''constructor'', ''toString'', ''toLocaleString'', ''valueOf'', ''hasOwnProperty'',
     ''isPrototypeOf'', ''propertyIsEnumerable'', ''__proto__'', ''__defineGetter__'',
     ''__defineSetter__'', ''__lookupGetter__'', ''__lookupSetter__'']"

definition obj_get :: "js_object \<Rightarrow> string \<Rightarrow> jsval" where
  "obj_get obj k =
    (case map_of obj k of
       Some v \<Rightarrow> Str v
     | None \<Rightarrow> if k \<in> set Object_prototype then Inherited k else Undefined)"

fun truthy :: "jsval \<Rightarrow> bool" where
  "truthy Undefined = False"
| "truthy (Str s) = (s \<noteq> [])"
| "truthy (Inherited k) = True"

text \<open>\<^verbatim>\<open>_.invert(obj)\<close>: keys and values swapped, a later duplicate overwriting.\<close>

definition invert :: "js_object \<Rightarrow> js_object" where
  "invert obj = foldl (\<lambda>acc (k, v). obj_set acc v k) [] obj"

section \<open>Regular expressions: the syntax tree\<close>

text \<open>
  The members of a character class: a character, a range, and the escapes
  \<^verbatim>\<open>\d\<close>, \<^verbatim>\<open>\w\<close>, \<^verbatim>\<open>\s\<close>.
\<close>

datatype citem = CChar char | CRange char char | CDigit | CWord | CSpace

text \<open>
  \<open>Group n r\<close> is the capturing group number \<open>n\<close>; \<open>Look neg r\<close> is the lookahead
  \<^verbatim>\<open>(?=r)\<close> or, when \<open>neg\<close>, \<^verbatim>\<open>(?!r)\<close>; \<open>Repeat r min max greedy\<close> is a quantified atom,
  with \<open>max = None\<close> for no upper bound.
\<close>

datatype regex =
    Empty
  | Chr char
  | Dot
  | Cls bool "citem list"
  | Bol
  | Eol
  | Seq regex regex
  | Alt regex regex
  | Group nat regex
  | Look bool regex
  | Repeat regex nat "nat option" bool

fun in_item :: "citem \<Rightarrow> char \<Rightarrow> bool" where
  "in_item (CChar a) c = (c = a)"
| "in_item (CRange lo hi) c = (code lo \<le> code c \<and> code c \<le> code hi)"
| "in_item CDigit c = (code CHR ''0'' \<le> code c \<and> code c \<le> code CHR ''9'')"
| "in_item CWord c =
    ((code CHR ''a'' \<le> code c \<and> code c \<le> code CHR ''z'') \<or>
     (code CHR ''A'' \<le> code c \<and> code c \<le> code CHR ''Z'') \<or>
     (code CHR ''0'' \<le> code c \<and> code c \<le> code CHR ''9'') \<or> c = CHR ''_'')"
| "in_item CSpace c = (code c \<in> {9, 10, 11, 12, 13, 32, 160})"

definition in_class :: "citem list \<Rightarrow> char \<Rightarrow> bool" where
  "in_class items c = list_ex (\<lambda>it. in_item it c) items"

text \<open>The capturing groups inside a term: a quantifier resets them at every iteration.\<close>

fun groups :: "regex \<Rightarrow> nat list" where
  "groups (Seq a b) = groups a @ groups b"
| "groups (Alt a b) = groups a @ groups b"
| "groups (Group n r) = n # groups r"
| "groups (Look neg r) = groups r"
| "groups (Repeat r mn mx g) = groups r"
| "groups r = []"

section \<open>Regular expressions: the pattern syntax read by \<^verbatim>\<open>XRegExp(pattern)\<close>\<close>

text \<open>
  The parser reads the pattern from left to right and keeps a stack of open groups. A frame
  holds what opened it, the alternatives already closed by \<^verbatim>\<open>|\<close> (last first), the terms
  of the running alternative (last first), and whether the last term may take a quantifier.
  A pattern outside the syntax modelled here, or one that JavaScript rejects with a
  SyntaxError, gives \<open>None\<close>.
\<close>

datatype gkind = Top | NonCap | Cap nat | LookAhead bool

datatype qflag = NoAtom | Atom | Quantified

datatype frame = Frame gkind "regex list" "regex list" qflag

type_synonym pstate = "frame list \<times> nat \<times> string option list"

definition seq_of :: "regex list \<Rightarrow> regex" where
  "seq_of rs = (case rs of [] \<Rightarrow> Empty | a # rest \<Rightarrow> foldl (\<lambda>acc b. Seq b acc) a rest)"

definition alt_of :: "regex list \<Rightarrow> regex" where
  "alt_of rs = (case rs of [] \<Rightarrow> Empty | a # rest \<Rightarrow> foldl (\<lambda>acc b. Alt b acc) a rest)"

definition is_digit :: "char \<Rightarrow> bool" where
  "is_digit c = in_item CDigit c"

definition is_word :: "char \<Rightarrow> bool" where
  "is_word c = in_item CWord c"

text \<open>
  An escape outside a class: \<^verbatim>\<open>\d \w \s\<close> and their complements, or an escaped character
  that is not a letter, digit or underscore and stands for itself. The patterns of the source
  write no other escape; the others of the pattern syntax (\<^verbatim>\<open>\b\<close>, \<^verbatim>\<open>\B\<close>, \<^verbatim>\<open>\n\<close>, \<^verbatim>\<open>\t\<close>,
  \<^verbatim>\<open>\xHH\<close>, a backreference), which only a key of a property table could bring in, are not
  read: the result is \<open>None\<close>.
\<close>

definition escape_atom :: "char \<Rightarrow> regex option" where
  "escape_atom e =
    (if e = CHR ''d'' then Some (Cls False [CDigit])
     else if e = CHR ''w'' then Some (Cls False [CWord])
     else if e = CHR ''s'' then Some (Cls False [CSpace])
     else if e = CHR ''D'' then Some (Cls True [CDigit])
     else if e = CHR ''W'' then Some (Cls True [CWord])
     else if e = CHR ''S'' then Some (Cls True [CSpace])
     else if is_word e then None
     else Some (Chr e))"

definition class_escape :: "char \<Rightarrow> citem option" where
  "class_escape e =
    (if e = CHR ''d'' then Some CDigit
     else if e = CHR ''w'' then Some CWord
     else if e = CHR ''s'' then Some CSpace
     else if is_word e then None
     else Some (CChar e))"

text \<open>
  One member of a class, from its first character \<open>c\<close> and the two characters \<open>la\<close> that
  follow it, and the number of following characters it takes: an escape, a range
  \<^verbatim>\<open>a-z\<close>, or a single character.
\<close>

definition class_item :: "char \<Rightarrow> string \<Rightarrow> (citem \<times> nat) option" where
  "class_item c la =
    (if c = bslash then
       (case la of
          [] \<Rightarrow> None
        | e # _ \<Rightarrow> map_option (\<lambda>it. (it, 1)) (class_escape e))
     else if take 1 la = ''-'' \<and> length la = 2 \<and> la ! 1 \<noteq> CHR '']'' then
       (if la ! 1 = bslash \<or> code (la ! 1) < code c then None
        else Some (CRange c (la ! 1), 2))
     else Some (CChar c, 0))"

text \<open>
  The members of a class up to its closing bracket, and the number of characters read
  (the bracket included).
\<close>

function class_items :: "string \<Rightarrow> (citem list \<times> nat) option"
  and class_rest :: "(citem \<times> nat) option \<Rightarrow> string \<Rightarrow> (citem list \<times> nat) option" where
  "class_items [] = None"
| "class_items (c # cs) = (if c = CHR '']'' then Some ([], 1) else class_rest (class_item c (take 2 cs)) cs)"
| "class_rest None cs = None"
| "class_rest (Some (it, 0)) cs =
     map_option (\<lambda>(its, n). (it # its, n + 1)) (class_items cs)"
| "class_rest (Some (it, Suc k)) cs =
     map_option (\<lambda>(its, n). (it # its, n + Suc k + 1)) (class_items (drop (Suc k) cs))"
  by pat_completeness auto
termination
  by (relation "measure (\<lambda>x. case x of Inl cs \<Rightarrow> 2 * length cs | Inr (r, cs) \<Rightarrow> 2 * length cs + 1)")
     auto

definition parse_class :: "string \<Rightarrow> (regex \<times> nat) option" where
  "parse_class cs =
    (if take 1 cs = ''^'' then map_option (\<lambda>(its, k). (Cls True its, k + 1)) (class_items (drop 1 cs))
     else map_option (\<lambda>(its, k). (Cls False its, k)) (class_items cs))"

text \<open>A decimal numeral, read from its digits.\<close>

definition digits_val :: "string \<Rightarrow> nat" where
  "digits_val ds = foldl (\<lambda>n d. 10 * n + (code d - code CHR ''0'')) 0 ds"

text \<open>
  A braced quantifier after the opening brace: \<^verbatim>\<open>n}\<close>, \<^verbatim>\<open>n,}\<close> or \<^verbatim>\<open>n,m}\<close>. The result is
  the bounds and the number of characters read; a brace that opens no such quantifier is an
  ordinary character.
\<close>

definition braces :: "string \<Rightarrow> (nat \<times> nat option \<times> nat) option" where
  "braces cs =
    (let ds = takeWhile is_digit cs; r = dropWhile is_digit cs in
     if ds = [] then None
     else if take 1 r = ''}'' then Some (digits_val ds, Some (digits_val ds), length ds + 1)
     else if take 1 r = '','' then
       (let es = takeWhile is_digit (drop 1 r); r' = dropWhile is_digit (drop 1 r) in
        if take 1 r' = ''}'' then
          Some (digits_val ds, if es = [] then None else Some (digits_val es),
                length ds + length es + 2)
        else None)
     else None)"

text \<open>
  The name of a named group after \<^verbatim>\<open>(?<\<close>: word characters and \<^verbatim>\<open>$\<close> up to \<^verbatim>\<open>>\<close>; a name
  that could be a number is refused (here: one that starts with a digit).
\<close>

definition name_char :: "char \<Rightarrow> bool" where
  "name_char c = (is_word c \<or> c = CHR ''$'')"

definition group_name :: "string \<Rightarrow> string option" where
  "group_name cs =
    (let nm = takeWhile name_char cs in
     if nm = [] \<or> is_digit (hd nm) \<or> nm = ''Infinity'' then None
     else if take 1 (dropWhile name_char cs) = ''>'' then Some nm
     else None)"

text \<open>The operations on the parser state; each fails on a state it does not fit.\<close>

fun push_atom :: "regex \<Rightarrow> qflag \<Rightarrow> pstate \<Rightarrow> pstate option" where
  "push_atom a q (Frame kd alts cur q0 # up, n, names) =
     Some (Frame kd alts (a # cur) q # up, n, names)"
| "push_atom a q ([], n, names) = None"

fun push_opt :: "regex option \<Rightarrow> pstate \<Rightarrow> pstate option" where
  "push_opt None st = None"
| "push_opt (Some a) st = push_atom a Atom st"

fun open_group :: "gkind \<Rightarrow> pstate \<Rightarrow> pstate" where
  "open_group kd (fs, n, names) = (Frame kd [] [] NoAtom # fs, n, names)"

fun open_capture :: "string option \<Rightarrow> pstate \<Rightarrow> pstate" where
  "open_capture nm (fs, n, names) = (Frame (Cap (Suc n)) [] [] NoAtom # fs, Suc n, names @ [nm])"

text \<open>
  A closing parenthesis. The term of a group can take a quantifier; that of a lookahead cannot
  here (no pattern of the source quantifies one).
\<close>

fun close_group :: "pstate \<Rightarrow> pstate option" where
  "close_group (Frame NonCap alts cur q # Frame kd' alts' cur' q' # up, n, names) =
     Some (Frame kd' alts' (alt_of (seq_of cur # alts) # cur') Atom # up, n, names)"
| "close_group (Frame (Cap k) alts cur q # Frame kd' alts' cur' q' # up, n, names) =
     Some (Frame kd' alts' (Group k (alt_of (seq_of cur # alts)) # cur') Atom # up, n, names)"
| "close_group (Frame (LookAhead neg) alts cur q # Frame kd' alts' cur' q' # up, n, names) =
     Some (Frame kd' alts' (Look neg (alt_of (seq_of cur # alts)) # cur') NoAtom # up, n, names)"
| "close_group st = None"

fun next_alt :: "pstate \<Rightarrow> pstate option" where
  "next_alt (Frame kd alts cur q # up, n, names) =
     Some (Frame kd (seq_of cur # alts) [] NoAtom # up, n, names)"
| "next_alt ([], n, names) = None"

text \<open>A quantifier applies to the last term, which must be an atom not yet quantified.\<close>

fun quantify :: "nat \<Rightarrow> nat option \<Rightarrow> pstate \<Rightarrow> pstate option" where
  "quantify mn mx (Frame kd alts (a # cur) Atom # up, n, names) =
     (if (case mx of None \<Rightarrow> False | Some k \<Rightarrow> k < mn) then None
      else Some (Frame kd alts (Repeat a mn mx True # cur) Quantified # up, n, names))"
| "quantify mn mx st = None"

text \<open>A question mark makes the quantifier before it lazy, or else an atom optional.\<close>

fun question :: "pstate \<Rightarrow> pstate option" where
  "question (Frame kd alts (Repeat a mn mx g # cur) Quantified # up, n, names) =
     Some (Frame kd alts (Repeat a mn mx False # cur) NoAtom # up, n, names)"
| "question (Frame kd alts (a # cur) Atom # up, n, names) =
     Some (Frame kd alts (Repeat a 0 (Some 1) True # cur) Quantified # up, n, names)"
| "question st = None"

text \<open>The new state together with the number of further characters the token took.\<close>

fun taking :: "nat \<Rightarrow> pstate option \<Rightarrow> (pstate \<times> nat) option" where
  "taking k None = None"
| "taking k (Some st) = Some (st, k)"

fun escape :: "pstate \<Rightarrow> string \<Rightarrow> (pstate \<times> nat) option" where
  "escape st [] = None"
| "escape st (e # cs) = taking 1 (push_opt (escape_atom e) st)"

fun bracket :: "(regex \<times> nat) option \<Rightarrow> pstate \<Rightarrow> (pstate \<times> nat) option" where
  "bracket None st = None"
| "bracket (Some (a, k)) st = taking k (push_atom a Atom st)"

fun brace :: "(nat \<times> nat option \<times> nat) option \<Rightarrow> pstate \<Rightarrow> (pstate \<times> nat) option" where
  "brace None st = taking 0 (push_atom (Chr CHR ''{'') Atom st)"
| "brace (Some (mn, mx, k)) st = taking k (quantify mn mx st)"

fun named_group :: "string option \<Rightarrow> pstate \<Rightarrow> (pstate \<times> nat) option" where
  "named_group None st = None"
| "named_group (Some nm) st = Some (open_capture (Some nm) st, length nm + 3)"

text \<open>
  An opening parenthesis, by the two characters \<open>la\<close> after it: \<^verbatim>\<open>(?:\<close>, \<^verbatim>\<open>(?!\<close>, \<^verbatim>\<open>(?=\<close>,
  \<^verbatim>\<open>(?<name>\<close>, or a plain capturing group.
\<close>

definition paren :: "string \<Rightarrow> pstate \<Rightarrow> string \<Rightarrow> (pstate \<times> nat) option" where
  "paren la st cs =
    (if la = ''?:'' then Some (open_group NonCap st, 2)
     else if la = ''?!'' then Some (open_group (LookAhead True) st, 2)
     else if la = ''?='' then Some (open_group (LookAhead False) st, 2)
     else if la = ''?<'' then named_group (group_name (drop 2 cs)) st
     else if take 1 la = ''?'' then None
     else Some (open_capture None st, 0))"

text \<open>The kind of token a character starts.\<close>

datatype ckind =
  KEscape | KClass | KOpen | KClose | KBar | KQuest | KStar | KPlus | KBrace | KBol | KEol | KDot | KChar

definition kind_of :: "char \<Rightarrow> ckind" where
  "kind_of c =
    (if c = bslash then KEscape
     else if c = CHR ''['' then KClass
     else if c = CHR ''('' then KOpen
     else if c = CHR '')'' then KClose
     else if c = CHR ''|'' then KBar
     else if c = CHR ''?'' then KQuest
     else if c = CHR ''*'' then KStar
     else if c = CHR ''+'' then KPlus
     else if c = CHR ''{'' then KBrace
     else if c = CHR ''^'' then KBol
     else if c = CHR ''$'' then KEol
     else if c = CHR ''.'' then KDot
     else KChar)"

text \<open>
  One token of the pattern: the state after the character \<open>c\<close> (followed by \<open>cs\<close>), and
  how many characters of \<open>cs\<close> the token takes with it.
\<close>

fun step :: "ckind \<Rightarrow> pstate \<Rightarrow> char \<Rightarrow> string \<Rightarrow> (pstate \<times> nat) option" where
  "step KEscape st c cs = escape st cs"
| "step KClass st c cs = bracket (parse_class cs) st"
| "step KOpen st c cs = paren (take 2 cs) st cs"
| "step KClose st c cs = taking 0 (close_group st)"
| "step KBar st c cs = taking 0 (next_alt st)"
| "step KQuest st c cs = taking 0 (question st)"
| "step KStar st c cs = taking 0 (quantify 0 None st)"
| "step KPlus st c cs = taking 0 (quantify 1 None st)"
| "step KBrace st c cs = brace (braces cs) st"
| "step KBol st c cs = taking 0 (push_atom Bol NoAtom st)"
| "step KEol st c cs = taking 0 (push_atom Eol NoAtom st)"
| "step KDot st c cs = taking 0 (push_atom Dot Atom st)"
| "step KChar st c cs = taking 0 (push_atom (Chr c) Atom st)"

fun finish :: "pstate \<Rightarrow> (regex \<times> string option list) option" where
  "finish ([Frame Top alts cur q], n, names) = Some (alt_of (seq_of cur # alts), names)"
| "finish st = None"

function parse_go :: "pstate \<Rightarrow> string \<Rightarrow> (regex \<times> string option list) option"
  and parse_on :: "(pstate \<times> nat) option \<Rightarrow> string \<Rightarrow> (regex \<times> string option list) option" where
  "parse_go st [] = finish st"
| "parse_go st (c # cs) = parse_on (step (kind_of c) st c cs) cs"
| "parse_on None cs = None"
| "parse_on (Some (st, 0)) cs = parse_go st cs"
| "parse_on (Some (st, Suc k)) cs = parse_go st (drop (Suc k) cs)"
  by pat_completeness auto
termination
  by (relation "measure (\<lambda>x. case x of Inl (st, cs) \<Rightarrow> 2 * length cs | Inr (r, cs) \<Rightarrow> 2 * length cs + 1)")
     auto

text \<open>
  A compiled pattern: the term, the names of its capturing groups in the order of their
  opening parentheses (\<^verbatim>\<open>captureNames\<close>, \<open>None\<close> for an unnamed group), and the
  \<^verbatim>\<open>g\<close> flag.
\<close>

record xregexp =
  re :: regex
  captureNames :: "string option list"
  global :: bool

definition XRegExp :: "string \<Rightarrow> bool \<Rightarrow> xregexp option" where
  "XRegExp pattern g =
    map_option (\<lambda>(r, names). \<lparr>re = r, captureNames = names, global = g\<rparr>)
      (parse_go ([Frame Top [] [] NoAtom], 0, []) pattern)"

section \<open>Regular expressions: the backtracking matcher\<close>

text \<open>
  A matcher state is the end index, the input that remains there, and the captures by group
  number. \<open>m r i xs c\<close> lists the states in which \<open>r\<close> can end when started at index \<open>i\<close>
  before \<open>xs\<close>, in the order in which backtracking tries them (ECMAScript 15.10.2): the
  continuation of the standard is run on the first state, then on the second, and so on.
  A quantifier with minimum 0 drops an iteration that consumed nothing (step 2.1 of
  RepeatMatcher, \<open>j = i\<close>); the second disjunct of that test never holds on its own
  (lemma \<open>m_end\<close>) and is what makes the recursion well founded.
\<close>

type_synonym caps = "nat \<Rightarrow> string option"

type_synonym mstate = "nat \<times> string \<times> caps"

definition clear :: "nat list \<Rightarrow> caps \<Rightarrow> caps" where
  "clear ns c = (\<lambda>n. if n \<in> set ns then None else c n)"

fun rsize :: "regex \<Rightarrow> nat" where
  "rsize (Seq a b) = Suc (rsize a + rsize b)"
| "rsize (Alt a b) = Suc (rsize a + rsize b)"
| "rsize (Group n r) = Suc (rsize r)"
| "rsize (Look neg r) = Suc (rsize r)"
| "rsize (Repeat r mn mx g) = Suc (rsize r)"
| "rsize r = 0"

fun rmin :: "regex \<Rightarrow> nat" where
  "rmin (Repeat r mn mx g) = mn"
| "rmin r = 0"

function m :: "regex \<Rightarrow> nat \<Rightarrow> string \<Rightarrow> caps \<Rightarrow> mstate list" where
  "m Empty i xs c = [(i, xs, c)]"
| "m (Chr a) i xs c =
    (case xs of [] \<Rightarrow> [] | x # ys \<Rightarrow> if x = a then [(Suc i, ys, c)] else [])"
| "m Dot i xs c =
    (case xs of [] \<Rightarrow> [] | x # ys \<Rightarrow> if code x = 10 \<or> code x = 13 then [] else [(Suc i, ys, c)])"
| "m (Cls neg items) i xs c =
    (case xs of [] \<Rightarrow> [] | x # ys \<Rightarrow> if in_class items x \<noteq> neg then [(Suc i, ys, c)] else [])"
| "m Bol i xs c = (if i = 0 then [(i, xs, c)] else [])"
| "m Eol i xs c = (if xs = [] then [(i, xs, c)] else [])"
| "m (Seq a b) i xs c = concat (map (\<lambda>(j, ys, c'). m b j ys c') (m a i xs c))"
| "m (Alt a b) i xs c = m a i xs c @ m b i xs c"
| "m (Group n r) i xs c =
    map (\<lambda>(j, ys, c'). (j, ys, c'(n := Some (take (j - i) xs)))) (m r i xs c)"
| "m (Look neg r) i xs c =
    (case m r i xs c of
       [] \<Rightarrow> if neg then [(i, xs, c)] else []
     | (j, ys, c') # _ \<Rightarrow> if neg then [] else [(i, xs, c')])"
| "m (Repeat r mn mx g) i xs c =
    (if mx = Some 0 then [(i, xs, c)]
     else
       let more = concat (map (\<lambda>(j, ys, c').
                    if mn = 0 \<and> (j = i \<or> length xs \<le> length ys) then []
                    else m (Repeat r (mn - 1) (map_option (\<lambda>k. k - 1) mx) g) j ys c')
                  (m r i xs (clear (groups r) c)))
       in if mn \<noteq> 0 then more
          else if g then more @ [(i, xs, c)]
          else (i, xs, c) # more)"
  by pat_completeness auto
termination
  by (relation "inv_image (less_than <*lex*> less_than <*lex*> less_than)
                  (\<lambda>(r, i, xs, c). (rsize r, rmin r, length xs))") auto

text \<open>
  \<^verbatim>\<open>RegExp.prototype.exec\<close> from \<^verbatim>\<open>lastIndex = 0\<close>: the matcher is tried at index 0, 1, ...
  up to the length of the input, and the first state of the first index that has one is the
  match.
\<close>

fun search :: "regex \<Rightarrow> nat \<Rightarrow> string \<Rightarrow> (nat \<times> string \<times> caps) option" where
  "search r i xs =
    (case m r i xs (\<lambda>n. None) of
       (j, ys, c) # _ \<Rightarrow> Some (i, take (j - i) xs, c)
     | [] \<Rightarrow> (case xs of [] \<Rightarrow> None | x # ys \<Rightarrow> search r (Suc i) ys))"

text \<open>
  The match array: \<open>index\<close>, the matched text (element 0), the numbered captures (elements
  1, 2, ...), and the named properties. XRegExp attaches the names in a loop over the
  group numbers, \<^verbatim>\<open>match[name] = match[i]\<close>, so the last group of a name decides it.
\<close>

record match_result =
  index :: nat
  matched :: string
  numbered :: caps
  named :: "string \<Rightarrow> string option"

definition attach_names :: "string option list \<Rightarrow> caps \<Rightarrow> string \<Rightarrow> string option" where
  "attach_names names c =
    foldl (\<lambda>acc (k, nm). case nm of None \<Rightarrow> acc | Some a \<Rightarrow> acc(a := c k))
      (\<lambda>a. None) (zip [1 ..< Suc (length names)] names)"

definition XRegExp_exec :: "string \<Rightarrow> xregexp \<Rightarrow> match_result option" where
  "XRegExp_exec str rx =
    map_option (\<lambda>(i, s, c). \<lparr>index = i, matched = s, numbered = c,
                              named = attach_names (captureNames rx) c\<rparr>)
      (search (re rx) 0 str)"

section \<open>The source: \<^verbatim>\<open>src/lib/grammar.js\<close>\<close>

subsection \<open>The pseudo-class table\<close>

definition PSEUDOS :: js_object where
  "PSEUDOS =
    [('':active'', '':a''),
     ('':checked'', '':c''),
     ('':default'', '':d''),
     ('':disabled'', '':di''),
     ('':empty'', '':e''),
     ('':enabled'', '':en''),
     ('':first'', '':fi''),
     ('':first-child'', '':fc''),
     ('':first-of-type'', '':fot''),
     ('':fullscreen'', '':fs''),
     ('':focus'', '':f''),
     ('':hover'', '':h''),
     ('':indeterminate'', '':ind''),
     ('':in-range'', '':ir''),
     ('':invalid'', '':inv''),
     ('':last-child'', '':lc''),
     ('':last-of-type'', '':lot''),
     ('':left'', '':l''),
     ('':link'', '':li''),
     ('':only-child'', '':oc''),
     ('':only-of-type'', '':oot''),
     ('':optional'', '':o''),
     ('':out-of-range'', '':oor''),
     ('':read-only'', '':ro''),
     ('':read-write'', '':rw''),
     ('':required'', '':req''),
     ('':right'', '':r''),
     ('':root'', '':rt''),
     ('':scope'', '':s''),
     ('':target'', '':t''),
     ('':valid'', '':va''),
     ('':visited'', '':vi'')]"

definition PSEUDOS_INVERTED :: js_object where
  "PSEUDOS_INVERTED = invert PSEUDOS"

text \<open>
  The loop \<^verbatim>\<open>for (var pseudo in PSEUDOS)\<close> pushes each name and then its alias, in the
  order of the table.
\<close>

definition PSEUDO_REGEX :: string where
  "PSEUDO_REGEX =
    ''(?:'' @ join ''|'' (concat (map (\<lambda>(pseudo, alias). [pseudo, alias]) PSEUDOS)) @ '')(?![a-z])''"

subsection \<open>The fragments of \<^verbatim>\<open>GRAMMAR\<close>\<close>

text \<open>
  Each fragment is the value of the JavaScript string literal, its escapes read:
  \<^verbatim>\<open>'\\s'\<close> is a backslash and \<^verbatim>\<open>s\<close>, while \<^verbatim>\<open>'\.'\<close> and \<^verbatim>\<open>'\{'\<close> are the bare characters
  \<^verbatim>\<open>.\<close> and \<^verbatim>\<open>{\<close>.
\<close>

definition GRAMMAR_BOUNDARY :: string where
  "GRAMMAR_BOUNDARY = ''(?:^|'' @ [bslash] @ ''s|'' @ [dquote] @ ''|'' @ [squote] @ ''|{)''"

definition GRAMMAR_PARENT :: string where
  "GRAMMAR_PARENT = ''[a-zA-Z][-_a-zA-Z0-9]+?''"

definition GRAMMAR_PARENT_SEP :: string where
  "GRAMMAR_PARENT_SEP = ''[>_+]''"

definition GRAMMAR_VALUES :: string where
  "GRAMMAR_VALUES = ''[-_,.#$/%0-9a-zA-Z]+''"

definition GRAMMAR_FRACTION :: string where
  "GRAMMAR_FRACTION =
    ''(?<numerator>[0-9]+)'' @ [bslash] @ ''/(?<denominator>[1-9](?:[0-9]+)?)''"

definition GRAMMAR_PARAMS :: string where
  "GRAMMAR_PARAMS = [bslash] @ ''((?<params>[^)]*)'' @ [bslash] @ '')''"

definition GRAMMAR_NUMBER :: string where
  "GRAMMAR_NUMBER = ''-?[0-9]+(?:.[0-9]+)?|'' @ [bslash] @ ''.[0-9]+''"

definition GRAMMAR_UNIT :: string where
  "GRAMMAR_UNIT = ''[a-zA-Z%]+''"

definition GRAMMAR_HEX :: string where
  "GRAMMAR_HEX = ''#[0-9a-f]{3}(?:[0-9a-f]{3})?''"

definition GRAMMAR_ALPHA :: string where
  "GRAMMAR_ALPHA = [bslash] @ ''.'' @ [bslash] @ ''d{1,2}''"

definition GRAMMAR_IMPORTANT :: string where
  "GRAMMAR_IMPORTANT = ''!''"

definition GRAMMAR_NAMED :: string where
  "GRAMMAR_NAMED =
    ''(['' @ [bslash] @ ''w$]+(?:(?:-(?!'' @ [bslash] @ ''-))?'' @ [bslash] @ ''w*)*)''"

definition GRAMMAR_PSEUDO :: string where
  "GRAMMAR_PSEUDO = PSEUDO_REGEX"

definition GRAMMAR_PSEUDO_SIMPLE :: string where
  "GRAMMAR_PSEUDO_SIMPLE = '':[a-z]+''"

definition GRAMMAR_BREAKPOINT :: string where
  "GRAMMAR_BREAKPOINT = ''--(?<breakPoint>[a-z]+)''"

definition GRAMMAR_PARENT_SELECTOR :: string where
  "GRAMMAR_PARENT_SELECTOR =
    concat [''(?<parent>'', GRAMMAR_PARENT, '')'',
            ''(?<parentPseudo>'', GRAMMAR_PSEUDO, '')?'',
            ''(?<parentSep>'', GRAMMAR_PARENT_SEP, '')'']"

definition GRAMMAR_PARENT_SELECTOR_SIMPLE :: string where
  "GRAMMAR_PARENT_SELECTOR_SIMPLE =
    concat [''(?<parent>'', GRAMMAR_PARENT, '')'',
            ''(?<parentPseudo>'', GRAMMAR_PSEUDO_SIMPLE, '')?'',
            ''(?<parentSep>'', GRAMMAR_PARENT_SEP, '')'']"

subsection \<open>The value pattern\<close>

definition VALUE_SYNTAXE_source :: string where
  "VALUE_SYNTAXE_source =
    concat [''(?<fraction>'', GRAMMAR_FRACTION, '')'',
            ''|'',
            ''(?:'',
              ''(?<hex>'', GRAMMAR_HEX, '')'',
              ''(?<alpha>'', GRAMMAR_ALPHA, '')?'',
              ''(?!'', GRAMMAR_UNIT, '')'',
            '')'',
            ''|'',
            ''(?<number>'', GRAMMAR_NUMBER, '')'',
            ''(?<unit>'', GRAMMAR_UNIT, '')?'',
            ''|'',
            ''(?<named>'', GRAMMAR_NAMED, '')'']"

definition VALUE_SYNTAXE :: "xregexp option" where
  "VALUE_SYNTAXE = XRegExp VALUE_SYNTAXE_source False"

subsection \<open>The property pattern\<close>

text \<open>
  A property table is read through \<^verbatim>\<open>Object.keys\<close> only: it is the list of its entries,
  keys distinct, whatever the descriptors are.
\<close>

type_synonym 'd table = "(string \<times> 'd) list"

definition Object_keys :: "'d table \<Rightarrow> string list" where
  "Object_keys t = map fst t"

text \<open>
  \<^verbatim>\<open>Array.prototype.sort(compare)\<close>, as an insertion sort: \<open>x\<close> goes before the first
  element that the comparison does not put before it.
\<close>

fun insert_by :: "('a \<Rightarrow> 'a \<Rightarrow> int) \<Rightarrow> 'a \<Rightarrow> 'a list \<Rightarrow> 'a list" where
  "insert_by cmp x [] = [x]"
| "insert_by cmp x (y # ys) = (if cmp x y < 0 then x # y # ys else y # insert_by cmp x ys)"

definition sort_by :: "('a \<Rightarrow> 'a \<Rightarrow> int) \<Rightarrow> 'a list \<Rightarrow> 'a list" where
  "sort_by cmp xs = foldr (insert_by cmp) xs []"

definition descending :: "string \<Rightarrow> string \<Rightarrow> int" where
  "descending a b = (if a > b then - 1 else 1)"

definition sorted_keys :: "'d table \<Rightarrow> string list" where
  "sorted_keys t = sort_by descending (Object_keys t)"

definition getSortedKeys :: "'d table \<Rightarrow> string" where
  "getSortedKeys t = join ''|'' (sorted_keys t)"

text \<open>
  \<open>isParamRequired\<close> is \<open>None\<close> when the argument is left out (\<^verbatim>\<open>undefined\<close>). The result
  is \<open>None\<close> for the number 0 that \<^verbatim>\<open>keys.length && [...]\<close> gives when no key has a
  character.
\<close>

definition buildRegex :: "'d table \<Rightarrow> bool option \<Rightarrow> string option" where
  "buildRegex t isParamRequired =
    (let keys = getSortedKeys t in
     if length keys = 0 then None
     else Some (concat
       [''(?<prop>'', keys, '')'',
        ''(?:'' @ [bslash] @ ''('',
          ''(?<atomicValues>'', GRAMMAR_VALUES, '')'',
        [bslash] @ ''))'',
        if isParamRequired = Some True then ''?'' else []]))"

record grammar =
  mainSyntax :: "string list"

text \<open>\<^verbatim>\<open>regex && this.mainSyntax.push(regex)\<close>: only a non-empty string is pushed.\<close>

definition addSyntaxRegex :: "string option \<Rightarrow> grammar \<Rightarrow> grammar" where
  "addSyntaxRegex regex this =
    (case regex of
       None \<Rightarrow> this
     | Some s \<Rightarrow> if s = [] then this else this\<lparr>mainSyntax := mainSyntax this @ [s]\<rparr>)"

definition Grammar :: "'d table \<Rightarrow> 'e table \<Rightarrow> grammar" where
  "Grammar rulesMap helpersMap =
    addSyntaxRegex (buildRegex helpersMap (Some False))
      (addSyntaxRegex (buildRegex rulesMap None) \<lparr>mainSyntax = []\<rparr>)"

definition getPseudo :: "string \<Rightarrow> jsval" where
  "getPseudo pseudoName =
    (if truthy (obj_get PSEUDOS pseudoName) then Str pseudoName
     else obj_get PSEUDOS_INVERTED pseudoName)"

text \<open>
  \<^verbatim>\<open>XRegExp.exec(value, VALUE_SYNTAXE)\<close>; \<open>None\<close> is \<^verbatim>\<open>null\<close>. The pattern is a constant
  that compiles (lemma \<open>VALUE_SYNTAXE_compiled\<close>).
\<close>

definition matchValue :: "string \<Rightarrow> match_result option" where
  "matchValue v = (case VALUE_SYNTAXE of None \<Rightarrow> None | Some rx \<Rightarrow> XRegExp_exec v rx)"

text \<open>
  \<open>None\<close> is \<^verbatim>\<open>undefined\<close>, the value of \<^verbatim>\<open>this.mainSyntax[0]\<close> when nothing was pushed.
\<close>

definition getMainSyntax :: "grammar \<Rightarrow> bool \<Rightarrow> string option" where
  "getMainSyntax this isSimple =
    (if isSimple then
       Some (concat
         [''(?:'',
            ''(?<prop>[A-Za-z]+)'',
            [bslash] @ ''((?<atomicValues>'', GRAMMAR_VALUES, '')'' @ [bslash] @ '')'',
          '')''])
     else if length (mainSyntax this) > 1 then Some (''(?:'' @ join ''|'' (mainSyntax this) @ '')'')
     else (case mainSyntax this of [] \<Rightarrow> None | s # _ \<Rightarrow> Some s))"

text \<open>\<^verbatim>\<open>join\<close> writes an \<^verbatim>\<open>undefined\<close> element as the empty string.\<close>

definition getSyntax_source :: "grammar \<Rightarrow> bool \<Rightarrow> string" where
  "getSyntax_source this isSimple =
    concat
      [GRAMMAR_BOUNDARY,
       ''(?<parentSelector>'',
         if isSimple then GRAMMAR_PARENT_SELECTOR_SIMPLE else GRAMMAR_PARENT_SELECTOR,
       '')?'',
       (case getMainSyntax this isSimple of None \<Rightarrow> [] | Some s \<Rightarrow> s),
       ''(?<important>'', GRAMMAR_IMPORTANT, '')?'',
       ''(?<valuePseudo>'',
         if isSimple then GRAMMAR_PSEUDO_SIMPLE else GRAMMAR_PSEUDO,
       '')?'',
       ''(?:'', GRAMMAR_BREAKPOINT, '')?'']"

text \<open>\<open>None\<close> when the constructor \<^verbatim>\<open>XRegExp(syntax, 'g')\<close> rejects the pattern.\<close>

definition getSyntax :: "grammar \<Rightarrow> bool \<Rightarrow> xregexp option" where
  "getSyntax this isSimple = XRegExp (getSyntax_source this isSimple) True"

section \<open>Reading a match\<close>

text \<open>
  The fields of a value match and of a token match, in one tuple: the index, the matched
  text, and the named captures in the order of their groups.
\<close>

definition value_view :: "match_result \<Rightarrow> nat \<times> string \<times> string option list" where
  "value_view r =
    (index r, matched r,
     map (named r) [''fraction'', ''numerator'', ''denominator'', ''hex'', ''alpha'',
                    ''number'', ''unit'', ''named''])"

definition token_view :: "match_result \<Rightarrow> nat \<times> string \<times> string option list" where
  "token_view r =
    (index r, matched r,
     map (named r) [''parentSelector'', ''parent'', ''parentPseudo'', ''parentSep'', ''prop'',
                    ''atomicValues'', ''important'', ''valuePseudo'', ''breakPoint''])"

text \<open>One compiled pattern run on several tokens.\<close>

definition exec_all ::
  "xregexp option \<Rightarrow> string list \<Rightarrow> (nat \<times> string \<times> string option list) option list option" where
  "exec_all rx toks =
    map_option (\<lambda>x. map (\<lambda>t. map_option token_view (XRegExp_exec t x)) toks) rx"

text \<open>The property tables of the examples; the descriptors play no part.\<close>

definition no_table :: "unit table" where
  "no_table = []"

definition rules_Mb_Bgc_D :: "unit table" where
  "rules_Mb_Bgc_D = [(''Mb'', ()), (''Bgc'', ()), (''D'', ())]"

definition rules_B_Bgc :: "unit table" where
  "rules_B_Bgc = [(''B'', ()), (''Bgc'', ())]"

definition helpers_Cf :: "unit table" where
  "helpers_Cf = [(''Cf'', ())]"

definition rules_B :: "unit table" where
  "rules_B = [(''B'', ())]"

definition helpers_Bgc :: "unit table" where
  "helpers_Bgc = [(''Bgc'', ())]"

text \<open>
  What \<^verbatim>\<open>buildRegex\<close> writes after the group of the identifiers: the parameter group and
  the quantifier that the flag selects.
\<close>

definition parameter_group :: "bool option \<Rightarrow> string" where
  "parameter_group isParamRequired =
    concat [''(?:'' @ [bslash] @ ''('',
              ''(?<atomicValues>'', GRAMMAR_VALUES, '')'',
            [bslash] @ ''))'',
            if isParamRequired = Some True then ''?'' else []]"

text \<open>
  The four alternatives of the value pattern, as \<^verbatim>\<open>XRegExp\<close> reads them (lemma
  \<open>VALUE_SYNTAXE_compiled\<close>): groups 1 to 3 are \<^verbatim>\<open>fraction\<close>, \<^verbatim>\<open>numerator\<close> and
  \<^verbatim>\<open>denominator\<close>, 4 and 5 are \<^verbatim>\<open>hex\<close> and \<^verbatim>\<open>alpha\<close>, 6 and 7 are \<^verbatim>\<open>number\<close> and \<^verbatim>\<open>unit\<close>,
  8 is \<^verbatim>\<open>named\<close> and 9 the unnamed group of the \<^verbatim>\<open>NAMED\<close> fragment.
\<close>

definition digit_items :: "citem list" where
  "digit_items = [CRange CHR ''0'' CHR ''9'']"

definition hex_items :: "citem list" where
  "hex_items = [CRange CHR ''0'' CHR ''9'', CRange CHR ''a'' CHR ''f'']"

definition unit_items :: "citem list" where
  "unit_items = [CRange CHR ''a'' CHR ''z'', CRange CHR ''A'' CHR ''Z'', CChar CHR ''%'']"

definition name_items :: "citem list" where
  "name_items = [CWord, CChar CHR ''$'']"

definition fraction_re :: regex where
  "fraction_re =
    Group 1 (Seq (Group 2 (Repeat (Cls False digit_items) 1 None True))
      (Seq (Chr CHR ''/'')
        (Group 3 (Seq (Cls False [CRange CHR ''1'' CHR ''9''])
          (Repeat (Repeat (Cls False digit_items) 1 None True) 0 (Some 1) True)))))"

definition color_re :: regex where
  "color_re =
    Seq (Group 4 (Seq (Chr CHR ''#'')
          (Seq (Repeat (Cls False hex_items) 3 (Some 3) True)
            (Repeat (Repeat (Cls False hex_items) 3 (Some 3) True) 0 (Some 1) True))))
      (Seq (Repeat (Group 5 (Seq (Chr CHR ''.'') (Repeat (Cls False [CDigit]) 1 (Some 2) True)))
              0 (Some 1) True)
        (Look True (Repeat (Cls False unit_items) 1 None True)))"

definition number_re :: regex where
  "number_re =
    Seq (Group 6 (Alt
          (Seq (Repeat (Chr CHR ''-'') 0 (Some 1) True)
            (Seq (Repeat (Cls False digit_items) 1 None True)
              (Repeat (Seq Dot (Repeat (Cls False digit_items) 1 None True)) 0 (Some 1) True)))
          (Seq (Chr CHR ''.'') (Repeat (Cls False digit_items) 1 None True))))
      (Repeat (Group 7 (Repeat (Cls False unit_items) 1 None True)) 0 (Some 1) True)"

definition named_re :: regex where
  "named_re =
    Group 8 (Group 9
      (Seq (Repeat (Cls False name_items) 1 None True)
        (Repeat
          (Seq (Repeat (Seq (Chr CHR ''-'') (Look True (Chr CHR ''-''))) 0 (Some 1) True)
               (Repeat (Cls False [CWord]) 0 None True))
          0 None True)))"

definition value_re :: regex where
  "value_re = Alt fraction_re (Alt color_re (Alt number_re named_re))"

definition value_names :: "string option list" where
  "value_names =
    [Some ''fraction'', Some ''numerator'', Some ''denominator'', Some ''hex'', Some ''alpha'',
     Some ''number'', Some ''unit'', Some ''named'', None]"

text \<open>
  Hexadecimal digits: those the \<^verbatim>\<open>HEX\<close> fragment reads (decimal digits and \<^verbatim>\<open>a\<close> to \<^verbatim>\<open>f\<close>),
  the capital letters \<^verbatim>\<open>A\<close> to \<^verbatim>\<open>F\<close>, and both.
\<close>

definition is_lower_hex :: "char \<Rightarrow> bool" where
  "is_lower_hex c = in_class hex_items c"

definition is_upper_hex :: "char \<Rightarrow> bool" where
  "is_upper_hex c = in_item (CRange CHR ''A'' CHR ''F'') c"

definition is_hex_any :: "char \<Rightarrow> bool" where
  "is_hex_any c = (is_lower_hex c \<or> is_upper_hex c)"

text \<open>\<open>matches_at r p i\<close>: the term \<open>r\<close> has a match that starts at index \<open>i\<close> of \<open>p\<close>.\<close>

definition matches_at :: "regex \<Rightarrow> string \<Rightarrow> nat \<Rightarrow> bool" where
  "matches_at r p i = (m r i (drop i p) (\<lambda>n. None) \<noteq> [])"

text \<open>\<open>matches_whole r p\<close>: the term \<open>r\<close> has a match that is the entire string \<open>p\<close>.\<close>

definition matches_whole :: "regex \<Rightarrow> string \<Rightarrow> bool" where
  "matches_whole r p = list_ex (\<lambda>(j, ys, c). ys = []) (m r 0 p (\<lambda>n. None))"

section \<open>Properties of the matcher\<close>

declare m.simps [simp del]

text \<open>A state reached from index \<open>i\<close> before \<open>xs\<close> lies at a suffix of \<open>xs\<close>, at its index.\<close>

lemma m_end:
  "(j, ys, c') \<in> set (m r i xs c) \<Longrightarrow> \<exists>zs. xs = zs @ ys \<and> j = i + length zs"
proof (induction r i xs c arbitrary: j ys c' rule: m.induct)
  case (1 i xs c)
  then show ?case by (simp add: m.simps(1))
next
  case (2 a i xs c)
  then show ?case by (cases xs) (auto simp: m.simps(2) split: if_splits)
next
  case (3 i xs c)
  then show ?case by (cases xs) (auto simp: m.simps(3) split: if_splits)
next
  case (4 neg items i xs c)
  then show ?case by (cases xs) (auto simp: m.simps(4) split: if_splits)
next
  case (5 i xs c)
  then show ?case by (auto simp: m.simps(5) split: if_splits)
next
  case (6 i xs c)
  then show ?case by (auto simp: m.simps(6) split: if_splits)
next
  case (7 a b i xs c)
  from "7.prems" obtain j1 ys1 c1 where
    a: "(j1, ys1, c1) \<in> set (m a i xs c)" and b: "(j, ys, c') \<in> set (m b j1 ys1 c1)"
    by (auto simp: m.simps(7))
  from "7.IH"(1)[OF a] obtain zs1 where z1: "xs = zs1 @ ys1" "j1 = i + length zs1" by blast
  from "7.IH"(2)[OF a refl refl b] obtain zs2 where z2: "ys1 = zs2 @ ys" "j = j1 + length zs2"
    by auto
  from z1 z2 show ?case by auto
next
  case (8 a b i xs c)
  then show ?case by (auto simp: m.simps(8))
next
  case (9 n r i xs c)
  then show ?case by (auto simp: m.simps(9))
next
  case (10 neg r i xs c)
  then show ?case by (auto simp: m.simps(10) split: list.splits if_splits)
next
  case (11 r mn mx g i xs c)
  show ?case
  proof (cases "mx = Some 0")
    case True
    with "11.prems" show ?thesis by (simp add: m.simps(11))
  next
    case False
    let ?more = "concat (map (\<lambda>(j, ys, c').
                    if mn = 0 \<and> (j = i \<or> length xs \<le> length ys) then []
                    else m (Repeat r (mn - 1) (map_option (\<lambda>k. k - 1) mx) g) j ys c')
                  (m r i xs (clear (groups r) c)))"
    from "11.prems" False have "(j, ys, c') \<in> set ?more \<or> (j, ys, c') = (i, xs, c)"
      by (subst (asm) m.simps(11)) (auto simp: Let_def split: if_splits)
    then show ?thesis
    proof
      assume "(j, ys, c') = (i, xs, c)"
      then show ?thesis by simp
    next
      assume "(j, ys, c') \<in> set ?more"
      then obtain j1 ys1 c1 where
        a: "(j1, ys1, c1) \<in> set (m r i xs (clear (groups r) c))" and
        g: "\<not> (mn = 0 \<and> (j1 = i \<or> length xs \<le> length ys1))" and
        b: "(j, ys, c') \<in> set (m (Repeat r (mn - 1) (map_option (\<lambda>k. k - 1) mx) g) j1 ys1 c1)"
        by (auto split: if_splits)
      from "11.IH"(1)[OF False a] obtain zs1 where z1: "xs = zs1 @ ys1" "j1 = i + length zs1"
        by blast
      from "11.IH"(2)[OF False a refl refl g b] obtain zs2 where
        z2: "ys1 = zs2 @ ys" "j = j1 + length zs2" by auto
      from z1 z2 show ?thesis by auto
    qed
  qed
qed

text \<open>
  Hence the test of RepeatMatcher on the end index alone decides the guard of the model: an
  iteration whose remaining input is not shorter ended where it started.
\<close>

lemma m_no_progress:
  assumes "(j, ys, c') \<in> set (m r i xs c)"
  shows "(j = i \<or> length xs \<le> length ys) \<longleftrightarrow> j = i"
proof -
  from m_end[OF assms] obtain zs where "xs = zs @ ys" "j = i + length zs" by blast
  then show ?thesis by auto
qed

text \<open>A term changes the captures of its own groups only.\<close>

lemma m_frame:
  "(j, ys, c') \<in> set (m r i xs c) \<Longrightarrow> n \<notin> set (groups r) \<Longrightarrow> c' n = c n"
proof (induction r i xs c arbitrary: j ys c' rule: m.induct)
  case (1 i xs c)
  then show ?case by (simp add: m.simps(1))
next
  case (2 a i xs c)
  then show ?case by (cases xs) (auto simp: m.simps(2) split: if_splits)
next
  case (3 i xs c)
  then show ?case by (cases xs) (auto simp: m.simps(3) split: if_splits)
next
  case (4 neg items i xs c)
  then show ?case by (cases xs) (auto simp: m.simps(4) split: if_splits)
next
  case (5 i xs c)
  then show ?case by (auto simp: m.simps(5) split: if_splits)
next
  case (6 i xs c)
  then show ?case by (auto simp: m.simps(6) split: if_splits)
next
  case (7 a b i xs c)
  from "7.prems" obtain j1 ys1 c1 where
    a: "(j1, ys1, c1) \<in> set (m a i xs c)" and b: "(j, ys, c') \<in> set (m b j1 ys1 c1)"
    by (auto simp: m.simps(7))
  from "7.prems" have n: "n \<notin> set (groups a)" "n \<notin> set (groups b)" by auto
  from "7.IH"(1)[OF a n(1)] "7.IH"(2)[OF a refl refl b n(2)] show ?case by simp
next
  case (8 a b i xs c)
  then show ?case by (auto simp: m.simps(8))
next
  case (9 k r i xs c)
  then show ?case by (auto simp: m.simps(9))
next
  case (10 neg r i xs c)
  then show ?case by (auto simp: m.simps(10) split: list.splits if_splits)
next
  case (11 r mn mx g i xs c)
  show ?case
  proof (cases "mx = Some 0")
    case True
    with "11.prems" show ?thesis by (simp add: m.simps(11))
  next
    case False
    let ?more = "concat (map (\<lambda>(j, ys, c').
                    if mn = 0 \<and> (j = i \<or> length xs \<le> length ys) then []
                    else m (Repeat r (mn - 1) (map_option (\<lambda>k. k - 1) mx) g) j ys c')
                  (m r i xs (clear (groups r) c)))"
    from "11.prems" False have "(j, ys, c') \<in> set ?more \<or> (j, ys, c') = (i, xs, c)"
      by (subst (asm) m.simps(11)) (auto simp: Let_def split: if_splits)
    then show ?thesis
    proof
      assume "(j, ys, c') = (i, xs, c)"
      then show ?thesis by simp
    next
      assume "(j, ys, c') \<in> set ?more"
      then obtain j1 ys1 c1 where
        a: "(j1, ys1, c1) \<in> set (m r i xs (clear (groups r) c))" and
        g: "\<not> (mn = 0 \<and> (j1 = i \<or> length xs \<le> length ys1))" and
        b: "(j, ys, c') \<in> set (m (Repeat r (mn - 1) (map_option (\<lambda>k. k - 1) mx) g) j1 ys1 c1)"
        by (auto split: if_splits)
      from "11.prems" have n: "n \<notin> set (groups r)" by simp
      then have n': "n \<notin> set (groups (Repeat r (mn - 1) (map_option (\<lambda>k. k - 1) mx) g))"
        by simp
      from "11.IH"(1)[OF False a n] have "c1 n = clear (groups r) c n" .
      with n have "c1 n = c n" by (simp add: clear_def)
      with "11.IH"(2)[OF False a refl refl g b n'] show ?thesis by simp
    qed
  qed
qed

text \<open>The search returns the first state of the first index that has one.\<close>

lemma search_Some:
  "search r i xs = Some (k, s, c) \<Longrightarrow>
     \<exists>d j ys rest. d \<le> length xs \<and> k = i + d \<and>
       m r k (drop d xs) (\<lambda>n. None) = (j, ys, c) # rest \<and> s = take (j - k) (drop d xs) \<and>
       (\<forall>e<d. m r (i + e) (drop e xs) (\<lambda>n. None) = [])"
proof (induction xs arbitrary: i)
  case Nil
  then show ?case by (auto split: list.splits)
next
  case (Cons x xs)
  show ?case
  proof (cases "m r i (x # xs) (\<lambda>n. None)")
    case Nil
    with Cons.prems have "search r (Suc i) xs = Some (k, s, c)" by simp
    from Cons.IH[OF this] obtain d j ys rest where
      d: "d \<le> length xs" "k = Suc i + d"
         "m r k (drop d xs) (\<lambda>n. None) = (j, ys, c) # rest" "s = take (j - k) (drop d xs)"
         "\<forall>e<d. m r (Suc i + e) (drop e xs) (\<lambda>n. None) = []"
      by blast
    have "\<forall>e<Suc d. m r (i + e) (drop e (x # xs)) (\<lambda>n. None) = []"
    proof (intro allI impI)
      fix e assume "e < Suc d"
      then show "m r (i + e) (drop e (x # xs)) (\<lambda>n. None) = []"
        using Nil d(5) by (cases e) auto
    qed
    with d show ?thesis
      by (intro exI[of _ "Suc d"] exI[of _ j] exI[of _ ys] exI[of _ rest]) auto
  next
    case (Cons st rest)
    obtain j ys c0 where st: "st = (j, ys, c0)" by (cases st) auto
    with Cons Cons.prems have "k = i" "s = take (j - i) (x # xs)" "c0 = c" by auto
    with Cons st show ?thesis
      by (intro exI[of _ 0] exI[of _ j] exI[of _ ys] exI[of _ rest]) auto
  qed
qed

lemma search_None:
  "search r i xs = None \<longleftrightarrow> (\<forall>d\<le>length xs. m r (i + d) (drop d xs) (\<lambda>n. None) = [])"
proof (induction xs arbitrary: i)
  case Nil
  then show ?case by (auto split: list.splits)
next
  case (Cons x xs)
  show ?case
  proof (cases "m r i (x # xs) (\<lambda>n. None)")
    case Nil
    have "(\<forall>d\<le>length (x # xs). m r (i + d) (drop d (x # xs)) (\<lambda>n. None) = []) \<longleftrightarrow>
          (\<forall>d\<le>length xs. m r (Suc i + d) (drop d xs) (\<lambda>n. None) = [])"
    proof
      assume a: "\<forall>d\<le>length (x # xs). m r (i + d) (drop d (x # xs)) (\<lambda>n. None) = []"
      show "\<forall>d\<le>length xs. m r (Suc i + d) (drop d xs) (\<lambda>n. None) = []"
      proof (intro allI impI)
        fix d assume "d \<le> length xs"
        with a[rule_format, of "Suc d"] show "m r (Suc i + d) (drop d xs) (\<lambda>n. None) = []"
          by simp
      qed
    next
      assume a: "\<forall>d\<le>length xs. m r (Suc i + d) (drop d xs) (\<lambda>n. None) = []"
      show "\<forall>d\<le>length (x # xs). m r (i + d) (drop d (x # xs)) (\<lambda>n. None) = []"
      proof (intro allI impI)
        fix d assume "d \<le> length (x # xs)"
        then show "m r (i + d) (drop d (x # xs)) (\<lambda>n. None) = []"
          using Nil a by (cases d) auto
      qed
    qed
    with Nil Cons.IH[of "Suc i"] show ?thesis by simp
  next
    case (Cons st rest)
    then have "search r i (x # xs) \<noteq> None" by (cases st) auto
    moreover from Cons
    have "\<not> (\<forall>d\<le>length (x # xs). m r (i + d) (drop d (x # xs)) (\<lambda>n. None) = [])"
      by (auto intro: exI[of _ 0])
    ultimately show ?thesis by blast
  qed
qed

declare search.simps [simp del]

section \<open>The compiled patterns\<close>

lemma VALUE_SYNTAXE_compiled:
  "VALUE_SYNTAXE = Some \<lparr>re = value_re, captureNames = value_names, global = False\<rparr>"
  by code_simp

text \<open>
  The precise and the fast pattern of the table \<open>{Mb, Bgc, D}\<close> (no helpers), each run on
  the tokens of the examples. The second token of the first list is the first with a
  backslash before the underscore, as the specification prints it.
\<close>

lemma precise_Mb_Bgc_D:
  "exec_all (getSyntax (Grammar rules_Mb_Bgc_D no_table) False)
     [''Mb(10px)'', ''D_Bgc(red)!:h--md'', ''D'' @ [bslash] @ ''_Bgc(red)!:h--md'',
      ''Dx_Bgc(red)!:h--md'', ''foo:first-child_Bgc(red)''] =
   Some [Some (0, ''Mb(10px)'',
            [None, None, None, None, Some ''Mb'', Some ''10px'', None, None, None]),
         None,
         None,
         Some (0, ''Dx_Bgc(red)!:h--md'',
            [Some ''Dx_'', Some ''Dx'', None, Some ''_'', Some ''Bgc'', Some ''red'',
             Some ''!'', Some '':h'', Some ''md'']),
         Some (0, ''foo:first-child_Bgc(red)'',
            [Some ''foo:first-child_'', Some ''foo'', Some '':first-child'', Some ''_'',
             Some ''Bgc'', Some ''red'', None, None, None])]"
  by code_simp

lemma fast_Mb_Bgc_D:
  "exec_all (getSyntax (Grammar rules_Mb_Bgc_D no_table) True)
     [''Mb(10px)'', ''foo:first-child_Bgc(red)'', ''foo:hover_Bgc(red)''] =
   Some [Some (0, ''Mb(10px)'',
            [None, None, None, None, Some ''Mb'', Some ''10px'', None, None, None]),
         None,
         Some (0, ''foo:hover_Bgc(red)'',
            [Some ''foo:hover_'', Some ''foo'', Some '':hover'', Some ''_'', Some ''Bgc'',
             Some ''red'', None, None, None])]"
  by code_simp

text \<open>The precise pattern of the empty primary table and the helper table \<open>{Cf}\<close>.\<close>

lemma precise_helpers_Cf:
  "exec_all (getSyntax (Grammar no_table helpers_Cf) False) [''Cf'', ''Cf(1)''] =
   Some [None,
         Some (0, ''Cf(1)'', [None, None, None, None, Some ''Cf'', Some ''1'', None, None, None])]"
  by code_simp

text \<open>The precise pattern of the table \<open>{B, Bgc}\<close> (no helpers).\<close>

lemma precise_B_Bgc:
  "exec_all (getSyntax (Grammar rules_B_Bgc no_table) False) [''Bgc(red)'', ''B(red)''] =
   Some [Some (0, ''Bgc(red)'',
            [None, None, None, None, Some ''Bgc'', Some ''red'', None, None, None]),
         Some (0, ''B(red)'',
            [None, None, None, None, Some ''B'', Some ''red'', None, None, None])]"
  by code_simp

text \<open>The precise pattern of two empty tables.\<close>

lemma precise_empty:
  "exec_all (getSyntax (Grammar no_table no_table) False) ['''', ''Mb(10px)''] =
   Some [Some (0, '''', [None, None, None, None, None, None, None, None, None]),
         Some (0, '''', [None, None, None, None, None, None, None, None, None])]"
  by code_simp

lemma fast_empty:
  "exec_all (getSyntax (Grammar no_table no_table) True) ['''', ''Mb(10px)''] =
   Some [None,
         Some (0, ''Mb(10px)'',
            [None, None, None, None, Some ''Mb'', Some ''10px'', None, None, None])]"
  by code_simp

section \<open>Evaluating the matcher on an input whose characters are not known\<close>

lemma clear_Nil [simp]: "clear [] c = c"
  by (simp add: clear_def)

lemma m_Chr_Cons: "m (Chr a) i (x # ys) c = (if x = a then [(Suc i, ys, c)] else [])"
  by (simp add: m.simps(2))

lemma m_Chr_Nil: "m (Chr a) i [] c = []"
  by (simp add: m.simps(2))

lemma m_Cls_Cons:
  "m (Cls neg its) i (x # ys) c = (if in_class its x \<noteq> neg then [(Suc i, ys, c)] else [])"
  by (simp add: m.simps(4))

lemma m_Cls_Nil: "m (Cls neg its) i [] c = []"
  by (simp add: m.simps(4))

lemma m_Seq_Nil: "m a i xs c = [] \<Longrightarrow> m (Seq a b) i xs c = []"
  by (simp add: m.simps(7))

lemma m_Seq_nonempty:
  "m a i xs c \<noteq> [] \<Longrightarrow> (\<And>j ys c'. m b j ys c' \<noteq> []) \<Longrightarrow> m (Seq a b) i xs c \<noteq> []"
  by (cases "m a i xs c") (auto simp: m.simps(7))

lemma m_Alt_Nil: "m (Alt a b) i xs c = [] \<longleftrightarrow> m a i xs c = [] \<and> m b i xs c = []"
  by (simp add: m.simps(8))

lemma m_Group_empty: "m (Group n r) i xs c = [] \<longleftrightarrow> m r i xs c = []"
  by (simp add: m.simps(9))

lemma m_Look_neg: "m (Look True r) i xs c = (if m r i xs c = [] then [(i, xs, c)] else [])"
  by (cases "m r i xs c") (auto simp: m.simps(10))

text \<open>The quantifier, one case at a time.\<close>

lemma m_Repeat_max0: "m (Repeat r mn (Some 0) g) i xs c = [(i, xs, c)]"
  by (simp add: m.simps(11))

lemma m_Repeat_unfold:
  "mx \<noteq> Some 0 \<Longrightarrow> m (Repeat r mn mx g) i xs c =
    (let more = concat (map (\<lambda>(j, ys, c').
                    if mn = 0 \<and> (j = i \<or> length xs \<le> length ys) then []
                    else m (Repeat r (mn - 1) (map_option (\<lambda>k. k - 1) mx) g) j ys c')
                  (m r i xs (clear (groups r) c)))
       in if mn \<noteq> 0 then more
          else if g then more @ [(i, xs, c)]
          else (i, xs, c) # more)"
  by (subst m.simps(11)) simp

lemma m_Repeat_step:
  "mn \<noteq> 0 \<Longrightarrow> mx \<noteq> Some 0 \<Longrightarrow> m (Repeat r mn mx g) i xs c =
     concat (map (\<lambda>(j, ys, c'). m (Repeat r (mn - 1) (map_option (\<lambda>k. k - 1) mx) g) j ys c')
       (m r i xs (clear (groups r) c)))"
  by (subst m_Repeat_unfold) (simp_all add: Let_def)

lemma m_Repeat_fail:
  "mn \<noteq> 0 \<Longrightarrow> mx \<noteq> Some 0 \<Longrightarrow> m r i xs (clear (groups r) c) = [] \<Longrightarrow>
     m (Repeat r mn mx g) i xs c = []"
  by (simp_all add: m_Repeat_unfold)

lemma m_Repeat0_nonempty: "m (Repeat r 0 mx g) i xs c \<noteq> []"
  by (cases "mx = Some 0") (simp_all add: m_Repeat_unfold m_Repeat_max0 Let_def)

text \<open>An optional term: its states that moved on, and the state it started from.\<close>

lemma m_opt:
  "m (Repeat r 0 (Some (Suc 0)) g) i xs c =
     (let more = filter (\<lambda>(j, ys, c'). \<not> (j = i \<or> length xs \<le> length ys))
                   (m r i xs (clear (groups r) c))
      in if g then more @ [(i, xs, c)] else (i, xs, c) # more)"
proof -
  have "concat (map (\<lambda>(j, ys, c').
            if (0::nat) = 0 \<and> (j = i \<or> length xs \<le> length ys) then []
            else m (Repeat r (0 - 1) (map_option (\<lambda>k. k - 1) (Some (Suc 0))) g) j ys c') l) =
        filter (\<lambda>(j, ys, c'). \<not> (j = i \<or> length xs \<le> length ys)) l" for l
    by (induction l) (auto simp: m_Repeat_max0)
  then show ?thesis
    by (subst m_Repeat_unfold) (simp_all add: Let_def)
qed

text \<open>One or more characters of a class match exactly where the first character is in it.\<close>

lemma m_plus_class_nonempty:
  "in_class its x \<Longrightarrow> m (Repeat (Cls False its) (Suc 0) None g) i (x # ys) c \<noteq> []"
  by (subst m_Repeat_unfold) (simp_all add: m_Cls_Cons m_Repeat0_nonempty)

lemma m_plus_class_empty:
  "m (Repeat (Cls False its) (Suc 0) None g) i xs c = [] \<longleftrightarrow>
     (xs = [] \<or> \<not> in_class its (hd xs))"
proof (cases xs)
  case Nil
  then show ?thesis by (simp add: m_Repeat_fail m_Cls_Nil)
next
  case (Cons x ys)
  show ?thesis
  proof (cases "in_class its x")
    case True
    with Cons m_plus_class_nonempty[OF True] show ?thesis by simp
  next
    case False
    with Cons show ?thesis by (simp add: m_Repeat_fail m_Cls_Cons)
  qed
qed

section \<open>The value pattern on any payload\<close>

lemma matchValue_search:
  "matchValue p =
     map_option (\<lambda>(i, s, c). \<lparr>index = i, matched = s, numbered = c,
                               named = attach_names value_names c\<rparr>) (search value_re 0 p)"
  by (simp add: matchValue_def VALUE_SYNTAXE_compiled XRegExp_exec_def)

lemma matchValue_Some:
  assumes "matchValue p = Some r"
  shows "\<exists>j ys rest. index r \<le> length p \<and>
     m value_re (index r) (drop (index r) p) (\<lambda>n. None) = (j, ys, numbered r) # rest \<and>
     matched r = take (j - index r) (drop (index r) p) \<and>
     named r = attach_names value_names (numbered r) \<and>
     (\<forall>e<index r. m value_re e (drop e p) (\<lambda>n. None) = [])"
proof -
  from assms obtain k s c where s: "search value_re 0 p = Some (k, s, c)"
    and r: "r = \<lparr>index = k, matched = s, numbered = c, named = attach_names value_names c\<rparr>"
    by (auto simp: matchValue_search)
  from search_Some[OF s] r show ?thesis by auto
qed

lemma matchValue_index_le:
  assumes "matchValue p = Some r" and "m value_re k (drop k p) (\<lambda>n. None) \<noteq> []"
  shows "index r \<le> k"
proof (rule ccontr)
  assume "\<not> index r \<le> k"
  then have "k < index r" by simp
  with matchValue_Some[OF assms(1)] assms(2) show False by blast
qed

lemma matchValue_index_matches:
  assumes "matchValue p = Some r"
  shows "m value_re (index r) (drop (index r) p) (\<lambda>n. None) \<noteq> []"
  using matchValue_Some[OF assms] by auto

text \<open>No alternative matches before the index of the match.\<close>

lemma matchValue_leftmost:
  assumes "matchValue p = Some r" and "e < index r"
  shows "\<not> matches_at fraction_re p e \<and> \<not> matches_at color_re p e \<and>
         \<not> matches_at number_re p e \<and> \<not> matches_at named_re p e"
proof -
  from matchValue_Some[OF assms(1)] assms(2)
  have "m value_re e (drop e p) (\<lambda>n. None) = []" by blast
  then show ?thesis
    by (simp add: value_re_def m.simps(8) matches_at_def)
qed

lemma value_names_attach:
  "attach_names value_names c ''fraction'' = c 1"
  "attach_names value_names c ''hex'' = c 4"
  "attach_names value_names c ''number'' = c 6"
  "attach_names value_names c ''named'' = c 8"
  by (simp_all add: attach_names_def value_names_def upt_rec eval_nat_numeral)

subsection \<open>Where no alternative matches\<close>

lemma not_name_not_digit: "\<not> in_class name_items x \<Longrightarrow> \<not> in_class digit_items x"
  by (auto simp: in_class_def digit_items_def name_items_def)

lemma not_name_not_hex: "\<not> in_class name_items x \<Longrightarrow> \<not> in_class hex_items x"
  by (auto simp: in_class_def hex_items_def name_items_def code_def)

lemma plus_digit_fail:
  "xs = [] \<or> \<not> in_class name_items (hd xs) \<Longrightarrow>
     m (Repeat (Cls False digit_items) (Suc 0) None True) i xs c = []"
  by (cases xs) (auto simp: m_Repeat_fail m_Cls_Cons m_Cls_Nil not_name_not_digit)

lemma fraction_fail:
  "xs = [] \<or> \<not> in_class name_items (hd xs) \<Longrightarrow> m fraction_re i xs c = []"
  unfolding fraction_re_def
  by (simp add: m_Group_empty m_Seq_Nil plus_digit_fail)

lemma named_fail:
  "xs = [] \<or> \<not> in_class name_items (hd xs) \<Longrightarrow> m named_re i xs c = []"
  unfolding named_re_def
  by (cases xs) (auto simp: m_Group_empty m_Seq_Nil m_Repeat_fail m_Cls_Cons m_Cls_Nil)

lemma color_fail:
  assumes a: "list_all (\<lambda>ch. \<not> in_class name_items ch) xs"
  shows "m color_re i xs c = []"
proof (cases xs)
  case Nil
  then show ?thesis unfolding color_re_def
    by (simp add: m_Seq_Nil m_Group_empty m_Chr_Nil)
next
  case (Cons x ys)
  have "m (Repeat (Cls False hex_items) 3 (Some 3) True) j ys c' = []" for j c'
    using a Cons by (cases ys) (auto simp: m_Repeat_fail m_Cls_Cons m_Cls_Nil not_name_not_hex)
  then have "m (Seq (Chr CHR ''#'') (Seq (Repeat (Cls False hex_items) 3 (Some 3) True) r))
               i xs c' = []" for r c'
    using Cons by (simp add: m.simps(7) m_Chr_Cons)
  then show ?thesis unfolding color_re_def
    by (simp add: m_Seq_Nil m_Group_empty)
qed

lemma number_fail:
  assumes a: "list_all (\<lambda>ch. \<not> in_class name_items ch) xs"
  shows "m number_re i xs c = []"
proof -
  have p: "m (Repeat (Cls False digit_items) (Suc 0) None True) j xs c' = []" for j c'
    using a by (intro plus_digit_fail) (cases xs, auto)
  have q: "m (Repeat (Cls False digit_items) (Suc 0) None True) j (tl xs) c' = []" for j c'
    using a by (intro plus_digit_fail) (cases xs, simp, cases "tl xs", auto)
  have 1: "m (Seq (Chr CHR ''.'') (Repeat (Cls False digit_items) (Suc 0) None True)) i xs c' = []"
    for c'
    using q by (cases xs) (simp_all add: m.simps(7) m_Chr_Cons m_Chr_Nil)
  have 2: "m (Seq (Repeat (Chr CHR ''-'') 0 (Some (Suc 0)) True)
            (Seq (Repeat (Cls False digit_items) (Suc 0) None True) r)) i xs c' = []" for r c'
    using p q by (cases xs) (simp_all add: m.simps(7) m_opt m_Chr_Cons m_Chr_Nil Let_def)
  show ?thesis unfolding number_re_def
    by (simp add: m_Seq_Nil m_Group_empty m_Alt_Nil 1 2)
qed

lemma value_fail:
  "list_all (\<lambda>ch. \<not> in_class name_items ch) xs \<Longrightarrow> m value_re i xs c = []"
  unfolding value_re_def
  by (cases xs) (simp_all add: m_Alt_Nil fraction_fail color_fail number_fail named_fail)

subsection \<open>Where the last alternative matches\<close>

lemma named_re_matches: "in_class name_items x \<Longrightarrow> m named_re i (x # xs) c \<noteq> []"
  unfolding named_re_def
  by (simp add: m_Group_empty)
     (intro m_Seq_nonempty m_plus_class_nonempty m_Repeat0_nonempty, simp)

lemma value_matches: "in_class name_items x \<Longrightarrow> m value_re i (x # xs) c \<noteq> []"
  unfolding value_re_def by (simp add: m_Alt_Nil named_re_matches)

lemma matchValue_None_iff:
  "matchValue p = None \<longleftrightarrow> (\<forall>ch\<in>set p. \<not> in_class name_items ch)"
proof
  assume "matchValue p = None"
  then have n: "\<forall>d\<le>length p. m value_re d (drop d p) (\<lambda>n. None) = []"
    using search_None[of value_re 0 p] by (simp add: matchValue_search)
  show "\<forall>ch\<in>set p. \<not> in_class name_items ch"
  proof
    fix ch assume "ch \<in> set p"
    then obtain pre post where p: "p = pre @ ch # post" by (auto simp: in_set_conv_decomp)
    from n[rule_format, of "length pre"] p
    have "m value_re (length pre) (ch # post) (\<lambda>n. None) = []" by simp
    with value_matches show "\<not> in_class name_items ch" by blast
  qed
next
  assume a: "\<forall>ch\<in>set p. \<not> in_class name_items ch"
  have "m value_re d (drop d p) (\<lambda>n. None) = []" for d
  proof (rule value_fail)
    from a show "list_all (\<lambda>ch. \<not> in_class name_items ch) (drop d p)"
      by (auto simp: list_all_iff dest: in_set_dropD)
  qed
  then show "matchValue p = None"
    using search_None[of value_re 0 p] by (simp add: matchValue_search)
qed

subsection \<open>The captures each alternative sets\<close>

lemma seq_group_sets:
  assumes "(j, ys, c') \<in> set (m (Seq (Group n a) b) i xs c)" and "n \<notin> set (groups b)"
  shows "c' n \<noteq> None"
proof -
  from assms(1) obtain j1 ys1 c1 where
    a: "(j1, ys1, c1) \<in> set (m (Group n a) i xs c)" and b: "(j, ys, c') \<in> set (m b j1 ys1 c1)"
    by (auto simp: m.simps(7))
  from a have "c1 n \<noteq> None" by (auto simp: m.simps(9))
  with m_frame[OF b assms(2)] show ?thesis by simp
qed

lemma fraction_sets:
  assumes "(j, ys, c') \<in> set (m fraction_re i xs c)"
  shows "c' 1 \<noteq> None \<and> c' 4 = c 4 \<and> c' 6 = c 6 \<and> c' 8 = c 8"
proof -
  from assms have "c' 1 \<noteq> None" unfolding fraction_re_def by (auto simp: m.simps(9))
  moreover have "c' n = c n" if "n \<notin> set (groups fraction_re)" for n
    using m_frame[OF assms that] .
  ultimately show ?thesis by (simp add: fraction_re_def)
qed

lemma color_sets:
  assumes "(j, ys, c') \<in> set (m color_re i xs c)"
  shows "c' 4 \<noteq> None \<and> c' 1 = c 1 \<and> c' 6 = c 6 \<and> c' 8 = c 8"
proof -
  from assms have "c' 4 \<noteq> None" unfolding color_re_def by (rule seq_group_sets) simp
  moreover have "c' n = c n" if "n \<notin> set (groups color_re)" for n
    using m_frame[OF assms that] .
  ultimately show ?thesis by (simp add: color_re_def)
qed

lemma number_sets:
  assumes "(j, ys, c') \<in> set (m number_re i xs c)"
  shows "c' 6 \<noteq> None \<and> c' 1 = c 1 \<and> c' 4 = c 4 \<and> c' 8 = c 8"
proof -
  from assms have "c' 6 \<noteq> None" unfolding number_re_def by (rule seq_group_sets) simp
  moreover have "c' n = c n" if "n \<notin> set (groups number_re)" for n
    using m_frame[OF assms that] .
  ultimately show ?thesis by (simp add: number_re_def)
qed

lemma named_sets:
  assumes "(j, ys, c') \<in> set (m named_re i xs c)"
  shows "c' 8 \<noteq> None \<and> c' 1 = c 1 \<and> c' 4 = c 4 \<and> c' 6 = c 6"
proof -
  from assms have "c' 8 \<noteq> None" unfolding named_re_def by (auto simp: m.simps(9))
  moreover have "c' n = c n" if "n \<notin> set (groups named_re)" for n
    using m_frame[OF assms that] .
  ultimately show ?thesis by (simp add: named_re_def)
qed

lemma first_of_four:
  assumes "st # rest = F @ C @ N @ Nm"
  shows "(F \<noteq> [] \<and> st \<in> set F) \<or> (F = [] \<and> C \<noteq> [] \<and> st \<in> set C) \<or>
         (F = [] \<and> C = [] \<and> N \<noteq> [] \<and> st \<in> set N) \<or>
         (F = [] \<and> C = [] \<and> N = [] \<and> Nm \<noteq> [] \<and> st \<in> set Nm)"
  using assms by (cases F; cases C; cases N; cases Nm) auto

text \<open>
  The variant of a match is that of the first alternative, in the order of the pattern, that
  matches at the index of the match; exactly one variant is set.
\<close>

lemma value_first_alternative:
  assumes "matchValue p = Some r"
  shows "(named r ''fraction'' \<noteq> None) = matches_at fraction_re p (index r) \<and>
    (named r ''hex'' \<noteq> None) =
      (\<not> matches_at fraction_re p (index r) \<and> matches_at color_re p (index r)) \<and>
    (named r ''number'' \<noteq> None) =
      (\<not> matches_at fraction_re p (index r) \<and> \<not> matches_at color_re p (index r) \<and>
       matches_at number_re p (index r)) \<and>
    (named r ''named'' \<noteq> None) =
      (\<not> matches_at fraction_re p (index r) \<and> \<not> matches_at color_re p (index r) \<and>
       \<not> matches_at number_re p (index r) \<and> matches_at named_re p (index r)) \<and>
    length (filter (\<lambda>n. named r n \<noteq> None) [''fraction'', ''hex'', ''number'', ''named'']) = 1"
proof -
  let ?e = "\<lambda>n::nat. None :: string option"
  let ?k = "index r"
  let ?xs = "drop ?k p"
  from matchValue_Some[OF assms] obtain j ys rest where
    mm: "m value_re ?k ?xs ?e = (j, ys, numbered r) # rest" and
    nm: "named r = attach_names value_names (numbered r)" by blast
  let ?F = "m fraction_re ?k ?xs ?e" and ?C = "m color_re ?k ?xs ?e"
  let ?N = "m number_re ?k ?xs ?e" and ?Nm = "m named_re ?k ?xs ?e"
  from mm have "(j, ys, numbered r) # rest = ?F @ ?C @ ?N @ ?Nm"
    by (simp add: value_re_def m.simps(8))
  from first_of_four[OF this]
  show ?thesis
    using fraction_sets[of j ys "numbered r" ?k ?xs ?e] color_sets[of j ys "numbered r" ?k ?xs ?e]
      number_sets[of j ys "numbered r" ?k ?xs ?e] named_sets[of j ys "numbered r" ?k ?xs ?e]
    by (auto simp: nm value_names_attach matches_at_def)
qed

subsection \<open>The color alternative on a hash sign and hexadecimal digits\<close>

lemma hex3:
  "m (Repeat (Cls False hex_items) 3 (Some 3) True) i (a # b # d # xs) c =
     (if is_lower_hex a \<and> is_lower_hex b \<and> is_lower_hex d
      then [(Suc (Suc (Suc i)), xs, c)] else [])"
  by (simp add: m_Repeat_step m_Repeat_max0 m_Cls_Cons is_lower_hex_def)

lemma hex3_short:
  "length xs < 3 \<Longrightarrow> m (Repeat (Cls False hex_items) 3 (Some 3) True) i xs c = []"
  by (cases xs; cases "tl xs"; cases "tl (tl xs)")
     (auto simp add: m_Repeat_step m_Repeat_max0 m_Cls_Cons m_Cls_Nil)

lemma upper_facts:
  "is_upper_hex c \<Longrightarrow>
     \<not> is_lower_hex c \<and> in_class unit_items c \<and> in_class name_items c \<and>
     c \<noteq> CHR ''#'' \<and> c \<noteq> CHR ''.'' \<and> \<not> is_digit c"
  by (auto simp: is_upper_hex_def is_lower_hex_def in_class_def hex_items_def unit_items_def
      name_items_def is_digit_def code_def)

lemma lower_facts:
  "is_lower_hex c \<Longrightarrow>
     in_class name_items c \<and> c \<noteq> CHR ''#'' \<and> c \<noteq> CHR ''.'' \<and>
     (is_digit c \<noteq> in_class unit_items c)"
  by (auto simp: is_lower_hex_def in_class_def hex_items_def unit_items_def
      name_items_def is_digit_def code_def)

lemma hex_any_facts:
  "is_hex_any c \<Longrightarrow> in_class name_items c \<and> c \<noteq> CHR ''#'' \<and> c \<noteq> CHR ''.'' \<and>
     (in_class unit_items c \<longleftrightarrow> \<not> is_digit c) \<and> (is_upper_hex c \<longrightarrow> \<not> is_lower_hex c)"
  using upper_facts[of c] lower_facts[of c] by (auto simp: is_hex_any_def)

lemma color3:
  "m color_re i [CHR ''#'', a, b, d] c =
     (if is_lower_hex a \<and> is_lower_hex b \<and> is_lower_hex d
      then [(i + 4, [], c(4 := Some [CHR ''#'', a, b, d]))] else [])"
  unfolding color_re_def
  by (simp add: m.simps(7) m.simps(9) m_Chr_Cons m_Chr_Nil hex3 hex3_short m_opt m_Look_neg
      m_plus_class_empty Let_def)

lemma color6:
  assumes "e \<noteq> CHR ''.''"
  shows "m color_re i [CHR ''#'', a, b, d, e, f, g] c =
     (if is_lower_hex a \<and> is_lower_hex b \<and> is_lower_hex d
      then (if is_lower_hex e \<and> is_lower_hex f \<and> is_lower_hex g
            then [(i + 7, [], c(4 := Some [CHR ''#'', a, b, d, e, f, g]))] else []) @
           (if in_class unit_items e then []
            else [(i + 4, [e, f, g], c(4 := Some [CHR ''#'', a, b, d]))])
      else [])"
  using assms unfolding color_re_def
  by (simp add: m.simps(7) m.simps(9) m_Chr_Cons m_Chr_Nil hex3 hex3_short m_opt m_Look_neg
      m_plus_class_empty Let_def)

lemma color_needs_hash: "x \<noteq> CHR ''#'' \<Longrightarrow> m color_re i (x # xs) c = []"
  unfolding color_re_def by (simp add: m.simps(7) m.simps(9) m_Chr_Cons)

lemma number_fail_hash: "m number_re i (CHR ''#'' # xs) c = []"
  unfolding number_re_def
  by (simp add: m.simps(7) m.simps(8) m.simps(9) m_opt m_Chr_Cons m_Repeat_fail m_Cls_Cons
      in_class_def digit_items_def code_def Let_def)

lemma value_at_hash:
  "m value_re i (CHR ''#'' # xs) c = m color_re i (CHR ''#'' # xs) c"
proof -
  have "\<not> in_class name_items CHR ''#''" by (simp add: in_class_def name_items_def code_def)
  then show ?thesis
    by (simp add: value_re_def m.simps(8) fraction_fail named_fail number_fail_hash)
qed

lemma color_at_hash_hex:
  assumes len: "length ds = 3 \<or> length ds = 6"
    and hex: "\<forall>d\<in>set ds. is_hex_any d"
    and up: "\<exists>d\<in>set ds. is_upper_hex d"
  shows "m color_re 0 (CHR ''#'' # ds) (\<lambda>n. None) =
     (if length ds = 6 \<and> (\<forall>d\<in>set (take 3 ds). is_lower_hex d) \<and> is_digit (ds ! 3)
      then [(4, drop 3 ds, (\<lambda>n. None)(4 := Some (CHR ''#'' # take 3 ds)))] else [])"
  using len
proof
  assume "length ds = 3"
  then obtain a b d where ds: "ds = [a, b, d]"
    by (auto simp: eval_nat_numeral length_Suc_conv)
  with hex up show ?thesis
    using hex_any_facts[of a] hex_any_facts[of b] hex_any_facts[of d]
    by (auto simp: color3)
next
  assume "length ds = 6"
  then obtain a b d e f g where ds: "ds = [a, b, d, e, f, g]"
    by (auto simp: eval_nat_numeral length_Suc_conv)
  with hex have e: "e \<noteq> CHR ''.''" using hex_any_facts[of e] by simp
  from ds hex up show ?thesis
    using hex_any_facts[of a] hex_any_facts[of b] hex_any_facts[of d]
      hex_any_facts[of e] hex_any_facts[of f] hex_any_facts[of g]
    by (auto simp: color6[OF e] eval_nat_numeral)
qed

lemma uppercase_hex_color:
  assumes len: "length ds = 3 \<or> length ds = 6"
    and hex: "\<forall>d\<in>set ds. is_hex_any d"
    and up: "\<exists>d\<in>set ds. is_upper_hex d"
  shows "\<exists>r. matchValue (CHR ''#'' # ds) = Some r \<and>
     ((named r ''hex'' \<noteq> None) =
        (length ds = 6 \<and> (\<forall>d\<in>set (take 3 ds). is_lower_hex d) \<and> is_digit (ds ! 3))) \<and>
     (named r ''hex'' \<noteq> None \<longrightarrow>
        index r = 0 \<and> matched r = CHR ''#'' # take 3 ds \<and>
        named r ''hex'' = Some (CHR ''#'' # take 3 ds))"
proof -
  let ?p = "CHR ''#'' # ds"
  let ?e = "\<lambda>n::nat. None :: string option"
  let ?cond = "length ds = 6 \<and> (\<forall>d\<in>set (take 3 ds). is_lower_hex d) \<and> is_digit (ds ! 3)"
  from len obtain x xs where ds: "ds = x # xs" by (cases ds) auto
  with hex have x: "in_class name_items x" "x \<noteq> CHR ''#''" using hex_any_facts[of x] by auto
  have "matchValue ?p \<noteq> None"
    using x(1) ds by (auto simp: matchValue_None_iff)
  then obtain r where r: "matchValue ?p = Some r" by blast
  have c0: "m value_re 0 ?p ?e =
     (if ?cond then [(4, drop 3 ds, ?e(4 := Some (CHR ''#'' # take 3 ds)))] else [])"
    using color_at_hash_hex[OF len hex up] by (simp add: value_at_hash)
  show ?thesis
  proof (cases ?cond)
    case True
    with c0 have ne: "m value_re 0 (drop 0 ?p) ?e \<noteq> []" by simp
    from matchValue_index_le[OF r ne] have i0: "index r = 0" by simp
    from matchValue_Some[OF r] i0 c0 True
    have "numbered r = ?e(4 := Some (CHR ''#'' # take 3 ds))"
      and "matched r = take 4 ?p" and "named r = attach_names value_names (numbered r)"
      by auto
    with r i0 True show ?thesis
      by (intro exI[of _ r]) (auto simp: value_names_attach)
  next
    case False
    with c0 have e0: "m value_re 0 ?p ?e = []" by simp
    have "index r \<noteq> 0"
      using matchValue_index_matches[OF r] e0 by (auto intro: ccontr)
    moreover have "m value_re 1 (drop 1 ?p) ?e \<noteq> []"
      using value_matches[OF x(1)] ds by simp
    from matchValue_index_le[OF r this] have "index r \<le> 1" .
    ultimately have i1: "index r = 1" by simp
    have "\<not> matches_at color_re ?p 1"
      using color_needs_hash[OF x(2)] ds by (simp add: matches_at_def)
    with value_first_alternative[OF r] i1 have "named r ''hex'' = None" by simp
    with r False show ?thesis by (intro exI[of _ r]) simp
  qed
qed

section \<open>The order of the property identifiers\<close>

lemma set_insert_by: "set (insert_by cmp x ys) = insert x (set ys)"
  by (induction ys) auto

lemma set_sort_by: "set (sort_by cmp xs) = set xs"
  by (induction xs) (auto simp: sort_by_def set_insert_by)

lemma length_insert_by: "length (insert_by cmp x ys) = Suc (length ys)"
  by (induction ys) auto

lemma length_sort_by: "length (sort_by cmp xs) = length xs"
  by (induction xs) (auto simp: sort_by_def length_insert_by)

lemma sorted_insert_by:
  "sorted_wrt (\<lambda>a b. a \<ge> b) ys \<Longrightarrow> sorted_wrt (\<lambda>a b. a \<ge> b) (insert_by descending x ys)"
  by (induction ys) (auto simp: set_insert_by descending_def)

lemma sorted_sort_by: "sorted_wrt (\<lambda>a b. a \<ge> b) (sort_by descending xs)"
proof (induction xs)
  case Nil
  then show ?case by (simp add: sort_by_def)
next
  case (Cons x xs)
  then show ?case using sorted_insert_by[of "sort_by descending xs" x] by (simp add: sort_by_def)
qed

text \<open>In the order of JavaScript strings a strict prefix comes before what it begins.\<close>

lemma strict_prefix_less:
  assumes "strict_prefix (a :: string) b"
  shows "a < b"
proof -
  from assms obtain zs where "b = a @ zs" "zs \<noteq> []"
    by (auto simp: strict_prefix_def prefix_def)
  then obtain z zs' where "b = a @ z # zs'" by (cases zs) auto
  then show ?thesis by (auto simp: list_less_def lexord_def)
qed

lemma sorted_keys_descending:
  "sorted_wrt (\<lambda>a b. a \<ge> b) (sorted_keys t) \<and>
   set (sorted_keys t) = set (Object_keys t) \<and>
   length (sorted_keys t) = length (Object_keys t) \<and>
   getSortedKeys t = join ''|'' (sorted_keys t) \<and>
   (\<forall>i j. i < j \<and> j < length (sorted_keys t) \<longrightarrow>
      \<not> strict_prefix (sorted_keys t ! i) (sorted_keys t ! j))"
proof -
  have s: "sorted_wrt (\<lambda>a b. a \<ge> b) (sorted_keys t)"
    by (simp add: sorted_keys_def sorted_sort_by)
  have "\<not> strict_prefix (sorted_keys t ! i) (sorted_keys t ! j)"
    if "i < j" "j < length (sorted_keys t)" for i j
  proof
    assume "strict_prefix (sorted_keys t ! i) (sorted_keys t ! j)"
    then have "sorted_keys t ! i < sorted_keys t ! j" by (rule strict_prefix_less)
    moreover from s that have "sorted_keys t ! i \<ge> sorted_keys t ! j"
      by (simp add: sorted_wrt_iff_nth_less)
    ultimately show False by simp
  qed
  with s show ?thesis
    by (simp add: sorted_keys_def set_sort_by length_sort_by getSortedKeys_def)
qed

text \<open>
  The fragments of a pair of tables: that of the primary table first, each with the
  identifiers of its own table.
\<close>

lemma buildRegex_keys:
  "buildRegex t q =
     (if getSortedKeys t = [] then None
      else Some (''(?<prop>'' @ join ''|'' (sorted_keys t) @ '')'' @ parameter_group q))"
  by (simp add: buildRegex_def Let_def parameter_group_def getSortedKeys_def)

lemma mainSyntax_Grammar:
  "mainSyntax (Grammar rulesMap helpersMap) =
     (if getSortedKeys rulesMap = [] then []
      else [''(?<prop>'' @ join ''|'' (sorted_keys rulesMap) @ '')'' @ parameter_group None]) @
     (if getSortedKeys helpersMap = [] then []
      else [''(?<prop>'' @ join ''|'' (sorted_keys helpersMap) @ '')'' @
            parameter_group (Some False)])"
  by (simp add: Grammar_def addSyntaxRegex_def buildRegex_keys)

lemma getMainSyntax_precise:
  "getMainSyntax (Grammar rulesMap helpersMap) False =
     (case mainSyntax (Grammar rulesMap helpersMap) of
        [] \<Rightarrow> None
      | [a] \<Rightarrow> Some a
      | a # b # _ \<Rightarrow> Some (''(?:'' @ a @ ''|'' @ b @ '')''))"
  by (simp add: getMainSyntax_def mainSyntax_Grammar)

section \<open>The claims\<close>

text \<open>
  Claim C1, as the code has it. The value pattern is not anchored and \<^verbatim>\<open>XRegExp.exec\<close> searches
  the payload for its first match, so \<^verbatim>\<open>matchValue\<close> returns \<^verbatim>\<open>null\<close> exactly when no character
  of the payload is a word character or \<^verbatim>\<open>$\<close> (the class \<^verbatim>\<open>[\w$]\<close>), whatever else the payload
  holds. A payload with stray characters gets the match of a part of it: for \<^verbatim>\<open>re d\<close> the
  Named match \<^verbatim>\<open>re\<close>; and \<^verbatim>\<open>matchValue("1/0")\<close> is a match.
\<close>

theorem matchValue_no_match:
  "(matchValue p = None \<longleftrightarrow> (\<forall>ch\<in>set p. \<not> in_class name_items ch)) \<and>
   (\<exists>r. matchValue ''re d'' = Some r \<and> index r = 0 \<and> matched r = ''re'' \<and>
        named r ''named'' = Some ''re'') \<and>
   matchValue ''1/0'' \<noteq> None"
proof -
  have "map_option value_view (matchValue ''re d'') =
          Some (0, ''re'', [None, None, None, None, None, None, None, Some ''re''])"
    by code_simp
  then have "\<exists>r. matchValue ''re d'' = Some r \<and> index r = 0 \<and> matched r = ''re'' \<and>
        named r ''named'' = Some ''re''"
    by (auto simp: value_view_def)
  moreover have "matchValue ''1/0'' \<noteq> None"
    by (simp add: matchValue_None_iff in_class_def name_items_def code_def)
  ultimately show ?thesis
    using matchValue_None_iff[of p] by blast
qed

text \<open>The theorem of C1 at the payload \<^verbatim>\<open>-%!\<close>, which has no character of the class.\<close>

theorem matchValue_no_match_witness:
  "matchValue ''-%!'' = None"
  using matchValue_no_match[of "''-%!''"]
  by (simp add: in_class_def name_items_def code_def)

text \<open>
  Claim C1 as stated fails: \<^verbatim>\<open>matchValue("1/0")\<close> is a match at index 0, and the payload
  \<^verbatim>\<open>re d\<close>, which holds a space, gets the partial match \<^verbatim>\<open>re\<close>.
\<close>

theorem matchValue_partial_counterexample:
  "(\<exists>r. matchValue ''1/0'' = Some r \<and> index r = 0) \<and>
   (\<exists>r. matchValue ''re d'' = Some r \<and> matched r = ''re'')"
proof -
  have "map_option (fst \<circ> value_view) (matchValue ''1/0'') = Some 0"
    by code_simp
  moreover have "map_option (fst \<circ> snd \<circ> value_view) (matchValue ''re d'') = Some ''re''"
    by code_simp
  ultimately show ?thesis
    by (auto simp: value_view_def)
qed

text \<open>
  Claim C2 (the code differs). \<^verbatim>\<open>buildRegex\<close> appends the question mark only when
  \<^verbatim>\<open>isParamRequired\<close> is truthy, and the constructor passes \<^verbatim>\<open>undefined\<close> for the primary
  table and \<^verbatim>\<open>false\<close> for the helper table: both fragments are the same, with a mandatory
  parameter group. With the helper table \<open>{Cf}\<close> the precise pattern does not match the
  identifier \<^verbatim>\<open>Cf\<close> standing alone, and matches \<^verbatim>\<open>Cf(1)\<close>.
\<close>

theorem helper_parameters_are_mandatory:
  "(\<forall>t :: 'd table. buildRegex t (Some False) = buildRegex t None) \<and>
   (\<exists>rx r. getSyntax (Grammar no_table helpers_Cf) False = Some rx \<and>
        XRegExp_exec ''Cf'' rx = None \<and>
        XRegExp_exec ''Cf(1)'' rx = Some r \<and> named r ''prop'' = Some ''Cf'' \<and>
        named r ''atomicValues'' = Some ''1'')"
proof -
  have "\<forall>t :: 'd table. buildRegex t (Some False) = buildRegex t None"
    by (simp add: buildRegex_def)
  moreover have "\<exists>rx r. getSyntax (Grammar no_table helpers_Cf) False = Some rx \<and>
        XRegExp_exec ''Cf'' rx = None \<and>
        XRegExp_exec ''Cf(1)'' rx = Some r \<and> named r ''prop'' = Some ''Cf'' \<and>
        named r ''atomicValues'' = Some ''1''"
    using precise_helpers_Cf by (auto simp: exec_all_def token_view_def)
  ultimately show ?thesis by blast
qed

text \<open>
  Claim C3, as the code has it. For every pair of property tables, \<^verbatim>\<open>buildRegex\<close> sorts the
  identifiers of each table, alone, in descending order of JavaScript strings, and the
  constructor puts the fragment of the primary table before that of the helper table. So
  within one table an identifier that occurs earlier in the match order is never a strict
  prefix of one that occurs later: the longer identifier is tried first. The two tables are
  not sorted together. For the primary table \<open>{B, Bgc}\<close> and an empty helper table the
  alternation is \<^verbatim>\<open>Bgc|B\<close>, and the precise pattern applied to \<^verbatim>\<open>Bgc(red)\<close> captures the
  property \<^verbatim>\<open>Bgc\<close>.
\<close>

theorem identifiers_sorted_descending:
  fixes rulesMap :: "'d table" and helpersMap :: "'e table"
  shows
  "mainSyntax (Grammar rulesMap helpersMap) =
     (if getSortedKeys rulesMap = [] then []
      else [''(?<prop>'' @ join ''|'' (sorted_keys rulesMap) @ '')'' @ parameter_group None]) @
     (if getSortedKeys helpersMap = [] then []
      else [''(?<prop>'' @ join ''|'' (sorted_keys helpersMap) @ '')'' @
            parameter_group (Some False)]) \<and>
   getMainSyntax (Grammar rulesMap helpersMap) False =
     (case mainSyntax (Grammar rulesMap helpersMap) of
        [] \<Rightarrow> None
      | [a] \<Rightarrow> Some a
      | a # b # _ \<Rightarrow> Some (''(?:'' @ a @ ''|'' @ b @ '')'')) \<and>
   sorted_wrt (\<lambda>a b. a \<ge> b) (sorted_keys rulesMap) \<and>
   sorted_wrt (\<lambda>a b. a \<ge> b) (sorted_keys helpersMap) \<and>
   set (sorted_keys rulesMap) = set (Object_keys rulesMap) \<and>
   set (sorted_keys helpersMap) = set (Object_keys helpersMap) \<and>
   (\<forall>i j. i < j \<and> j < length (sorted_keys rulesMap) \<longrightarrow>
      \<not> strict_prefix (sorted_keys rulesMap ! i) (sorted_keys rulesMap ! j)) \<and>
   (\<forall>i j. i < j \<and> j < length (sorted_keys helpersMap) \<longrightarrow>
      \<not> strict_prefix (sorted_keys helpersMap ! i) (sorted_keys helpersMap ! j)) \<and>
   getSortedKeys rules_B_Bgc = ''Bgc|B'' \<and>
   (\<exists>rx r. getSyntax (Grammar rules_B_Bgc no_table) False = Some rx \<and>
      XRegExp_exec ''Bgc(red)'' rx = Some r \<and> named r ''prop'' = Some ''Bgc'' \<and>
      named r ''atomicValues'' = Some ''red'')"
proof -
  have "getSortedKeys rules_B_Bgc = ''Bgc|B''"
    by (simp add: getSortedKeys_def sorted_keys_def sort_by_def rules_B_Bgc_def Object_keys_def
        descending_def)
  moreover have "\<exists>rx r. getSyntax (Grammar rules_B_Bgc no_table) False = Some rx \<and>
      XRegExp_exec ''Bgc(red)'' rx = Some r \<and> named r ''prop'' = Some ''Bgc'' \<and>
      named r ''atomicValues'' = Some ''red''"
    using precise_B_Bgc by (auto simp: exec_all_def token_view_def)
  ultimately show ?thesis
    using sorted_keys_descending[of rulesMap] sorted_keys_descending[of helpersMap]
      mainSyntax_Grammar[of rulesMap helpersMap] getMainSyntax_precise[of rulesMap helpersMap]
    by blast
qed

text \<open>
  The theorem of C3 at the pair of the tables \<open>{B, Bgc}\<close> and \<open>{Cf}\<close>: the fragment of the
  primary table comes first, and the first identifier of its alternation, \<^verbatim>\<open>Bgc\<close>, is not a
  strict prefix of the second, \<^verbatim>\<open>B\<close>.
\<close>

theorem identifiers_sorted_descending_witness:
  "mainSyntax (Grammar rules_B_Bgc helpers_Cf) =
     [''(?<prop>Bgc|B)'' @ parameter_group None,
      ''(?<prop>Cf)'' @ parameter_group (Some False)] \<and>
   sorted_keys rules_B_Bgc = [''Bgc'', ''B''] \<and>
   \<not> strict_prefix (sorted_keys rules_B_Bgc ! 0) (sorted_keys rules_B_Bgc ! 1)"
proof -
  have k: "sorted_keys rules_B_Bgc = [''Bgc'', ''B'']" "sorted_keys helpers_Cf = [''Cf'']"
    "getSortedKeys rules_B_Bgc = ''Bgc|B''" "getSortedKeys helpers_Cf = ''Cf''"
    by (simp_all add: getSortedKeys_def sorted_keys_def sort_by_def rules_B_Bgc_def
        helpers_Cf_def Object_keys_def descending_def)
  note t = identifiers_sorted_descending[of rules_B_Bgc helpers_Cf]
  from t have "mainSyntax (Grammar rules_B_Bgc helpers_Cf) =
     (if getSortedKeys rules_B_Bgc = [] then []
      else [''(?<prop>'' @ join ''|'' (sorted_keys rules_B_Bgc) @ '')'' @ parameter_group None]) @
     (if getSortedKeys helpers_Cf = [] then []
      else [''(?<prop>'' @ join ''|'' (sorted_keys helpers_Cf) @ '')'' @
            parameter_group (Some False)])"
    by blast
  then have 1: "mainSyntax (Grammar rules_B_Bgc helpers_Cf) =
     [''(?<prop>Bgc|B)'' @ parameter_group None,
      ''(?<prop>Cf)'' @ parameter_group (Some False)]"
    by (simp add: k)
  from t have "\<forall>i j. i < j \<and> j < length (sorted_keys rules_B_Bgc) \<longrightarrow>
      \<not> strict_prefix (sorted_keys rules_B_Bgc ! i) (sorted_keys rules_B_Bgc ! j)"
    by blast
  then have "0 < (1::nat) \<and> 1 < length (sorted_keys rules_B_Bgc) \<longrightarrow>
      \<not> strict_prefix (sorted_keys rules_B_Bgc ! 0) (sorted_keys rules_B_Bgc ! 1)"
    by blast
  with k 1 show ?thesis by simp
qed

text \<open>
  Claim C3 as stated fails for a pair of tables: with the primary table \<open>{B}\<close> and the
  helper table \<open>{Bgc}\<close> the alternation of the main pattern lists \<^verbatim>\<open>B\<close> before \<^verbatim>\<open>Bgc\<close>, so
  the identifiers are not in descending order and the earlier one is a strict prefix of the
  later one. And within the one table \<open>{B, Bgc}\<close>, whose alternation is \<^verbatim>\<open>Bgc|B\<close>, the
  identifier \<^verbatim>\<open>B\<close> is a strict prefix of \<^verbatim>\<open>Bgc\<close>, which occurs earlier.
\<close>

theorem primary_before_helper_counterexample:
  "getMainSyntax (Grammar rules_B helpers_Bgc) False =
     Some (concat [''(?:'',
                     ''(?<prop>'', ''B'', '')'', parameter_group None,
                   ''|'',
                     ''(?<prop>'', ''Bgc'', '')'', parameter_group (Some False),
                   '')'']) \<and>
   strict_prefix ''B'' ''Bgc'' \<and>
   sorted_keys rules_B @ sorted_keys helpers_Bgc = [''B'', ''Bgc''] \<and>
   \<not> sorted_wrt (\<lambda>a b. a \<ge> b) (sorted_keys rules_B @ sorted_keys helpers_Bgc) \<and>
   sorted_keys rules_B_Bgc = [''Bgc'', ''B''] \<and>
   strict_prefix (sorted_keys rules_B_Bgc ! 1) (sorted_keys rules_B_Bgc ! 0)"
proof -
  have k: "sorted_keys rules_B = [''B'']" "sorted_keys helpers_Bgc = [''Bgc'']"
    "getSortedKeys rules_B = ''B''" "getSortedKeys helpers_Bgc = ''Bgc''"
    "sorted_keys rules_B_Bgc = [''Bgc'', ''B'']"
    by (simp_all add: getSortedKeys_def sorted_keys_def sort_by_def rules_B_def helpers_Bgc_def
        rules_B_Bgc_def Object_keys_def descending_def)
  have "\<not> ''B'' \<ge> ''Bgc''"
    by (simp add: not_le strict_prefix_less strict_prefix_def prefix_def)
  then show ?thesis
    by (simp add: getMainSyntax_precise mainSyntax_Grammar k strict_prefix_def prefix_def)
qed

text \<open>
  Claim C4, as the code has it. The value pattern compiles to the alternation of Fraction,
  Color, Number+Unit and Named, in this order, and it is not anchored: a match is a part of
  the payload. The index of a match is the first index of the payload at which one of the
  four alternatives matches, with a match of any length; the variant that is set is that of
  the first of the four, in this order, that matches at that index; and exactly one of the
  four is set. \<^verbatim>\<open>matchValue("1/2")\<close> is the Fraction with numerator \<^verbatim>\<open>1\<close> and denominator
  \<^verbatim>\<open>2\<close>, and neither a Number nor a Named.
\<close>

theorem value_alternatives_in_order:
  "map_option re VALUE_SYNTAXE = Some (Alt fraction_re (Alt color_re (Alt number_re named_re))) \<and>
   (matchValue p = Some r \<longrightarrow>
      (\<forall>e<index r. \<not> matches_at fraction_re p e \<and> \<not> matches_at color_re p e \<and>
                    \<not> matches_at number_re p e \<and> \<not> matches_at named_re p e) \<and>
      (named r ''fraction'' \<noteq> None) = matches_at fraction_re p (index r) \<and>
      (named r ''hex'' \<noteq> None) =
        (\<not> matches_at fraction_re p (index r) \<and> matches_at color_re p (index r)) \<and>
      (named r ''number'' \<noteq> None) =
        (\<not> matches_at fraction_re p (index r) \<and> \<not> matches_at color_re p (index r) \<and>
         matches_at number_re p (index r)) \<and>
      (named r ''named'' \<noteq> None) =
        (\<not> matches_at fraction_re p (index r) \<and> \<not> matches_at color_re p (index r) \<and>
         \<not> matches_at number_re p (index r) \<and> matches_at named_re p (index r)) \<and>
      length (filter (\<lambda>n. named r n \<noteq> None) [''fraction'', ''hex'', ''number'', ''named'']) = 1) \<and>
   (\<exists>r. matchValue ''1/2'' = Some r \<and> index r = 0 \<and> matched r = ''1/2'' \<and>
      named r ''fraction'' = Some ''1/2'' \<and> named r ''numerator'' = Some ''1'' \<and>
      named r ''denominator'' = Some ''2'' \<and> named r ''hex'' = None \<and>
      named r ''number'' = None \<and> named r ''named'' = None)"
proof -
  have "map_option re VALUE_SYNTAXE = Some (Alt fraction_re (Alt color_re (Alt number_re named_re)))"
    by (simp add: VALUE_SYNTAXE_compiled value_re_def)
  moreover have "map_option value_view (matchValue ''1/2'') =
      Some (0, ''1/2'', [Some ''1/2'', Some ''1'', Some ''2'', None, None, None, None, None])"
    by code_simp
  then have "\<exists>r. matchValue ''1/2'' = Some r \<and> index r = 0 \<and> matched r = ''1/2'' \<and>
      named r ''fraction'' = Some ''1/2'' \<and> named r ''numerator'' = Some ''1'' \<and>
      named r ''denominator'' = Some ''2'' \<and> named r ''hex'' = None \<and>
      named r ''number'' = None \<and> named r ''named'' = None"
    by (auto simp: value_view_def)
  ultimately show ?thesis
    using value_first_alternative[of p r] matchValue_leftmost[of p r] by blast
qed

text \<open>
  The theorem of C4 at the payload \<^verbatim>\<open>+1/2\<close>: no alternative matches at index 0, the
  match starts at index 1, where the Fraction alternative matches, and it is a Fraction and
  nothing else.
\<close>

theorem value_alternatives_in_order_witness:
  "\<exists>r. matchValue ''+1/2'' = Some r \<and> index r = 1 \<and>
     \<not> matches_at number_re ''+1/2'' 0 \<and> \<not> matches_at named_re ''+1/2'' 0 \<and>
     matches_at fraction_re ''+1/2'' (index r) \<and> named r ''fraction'' \<noteq> None \<and>
     length (filter (\<lambda>n. named r n \<noteq> None) [''fraction'', ''hex'', ''number'', ''named'']) = 1"
proof -
  have "map_option (fst \<circ> value_view) (matchValue ''+1/2'') = Some 1"
    by code_simp
  then obtain r where r: "matchValue ''+1/2'' = Some r" "index r = 1"
    by (auto simp: value_view_def)
  have f: "matches_at fraction_re ''+1/2'' 1"
    by code_simp
  from value_alternatives_in_order[of "''+1/2''" r] r(1)
  have "\<forall>e<index r. \<not> matches_at fraction_re ''+1/2'' e \<and> \<not> matches_at color_re ''+1/2'' e \<and>
                    \<not> matches_at number_re ''+1/2'' e \<and> \<not> matches_at named_re ''+1/2'' e"
    and "(named r ''fraction'' \<noteq> None) = matches_at fraction_re ''+1/2'' (index r)"
    and "length (filter (\<lambda>n. named r n \<noteq> None) [''fraction'', ''hex'', ''number'', ''named'']) = 1"
    by blast+
  with r f show ?thesis by auto
qed

text \<open>
  Claim C4 as stated fails where it says that the first alternative that matches the payload
  is returned. For \<^verbatim>\<open>10px2\<close> the only alternative that matches the entire payload is Named,
  and \<^verbatim>\<open>matchValue\<close> returns the Number \<^verbatim>\<open>10\<close> with the unit \<^verbatim>\<open>px\<close>, for the part \<^verbatim>\<open>10px\<close>.
  For \<^verbatim>\<open>a1/2\<close> the Fraction alternative matches in the payload, at index 1, and
  \<^verbatim>\<open>matchValue\<close> returns the Named \<^verbatim>\<open>a1\<close>, found at index 0.
\<close>

theorem value_priority_counterexample:
  "(\<exists>r. matchValue ''10px2'' = Some r \<and> index r = 0 \<and> matched r = ''10px'' \<and>
      named r ''number'' = Some ''10'' \<and> named r ''unit'' = Some ''px'' \<and>
      named r ''named'' = None) \<and>
   \<not> matches_whole fraction_re ''10px2'' \<and> \<not> matches_whole color_re ''10px2'' \<and>
   \<not> matches_whole number_re ''10px2'' \<and> matches_whole named_re ''10px2'' \<and>
   (\<exists>r. matchValue ''a1/2'' = Some r \<and> index r = 0 \<and> matched r = ''a1'' \<and>
      named r ''named'' = Some ''a1'' \<and> named r ''fraction'' = None) \<and>
   matches_at fraction_re ''a1/2'' 1"
proof -
  have "map_option value_view (matchValue ''10px2'') =
      Some (0, ''10px'', [None, None, None, None, None, Some ''10'', Some ''px'', None])"
    by code_simp
  then have 1: "\<exists>r. matchValue ''10px2'' = Some r \<and> index r = 0 \<and> matched r = ''10px'' \<and>
      named r ''number'' = Some ''10'' \<and> named r ''unit'' = Some ''px'' \<and>
      named r ''named'' = None"
    by (auto simp: value_view_def)
  have "map_option value_view (matchValue ''a1/2'') =
      Some (0, ''a1'', [None, None, None, None, None, None, None, Some ''a1''])"
    by code_simp
  then have 2: "\<exists>r. matchValue ''a1/2'' = Some r \<and> index r = 0 \<and> matched r = ''a1'' \<and>
      named r ''named'' = Some ''a1'' \<and> named r ''fraction'' = None"
    by (auto simp: value_view_def)
  have 3: "\<not> matches_whole fraction_re ''10px2''" by code_simp
  have 4: "\<not> matches_whole color_re ''10px2''" by code_simp
  have 5: "\<not> matches_whole number_re ''10px2''" by code_simp
  have 6: "matches_whole named_re ''10px2''" by code_simp
  have 7: "matches_at fraction_re ''a1/2'' 1" by code_simp
  from 1 2 3 4 5 6 7 show ?thesis by blast
qed

text \<open>
  Claim C5, as the code has it. With the primary table \<open>{Mb, Bgc, D}\<close> and no helpers, the
  precise pattern decomposes \<^verbatim>\<open>Mb(10px)\<close> into the property \<^verbatim>\<open>Mb\<close> and the raw value
  \<^verbatim>\<open>10px\<close>, with no important marker. It does not match \<^verbatim>\<open>D_Bgc(red)!:h--md\<close> at all,
  because a parent identifier has at least two characters; with the parent \<^verbatim>\<open>Dx\<close> the token
  \<^verbatim>\<open>Dx_Bgc(red)!:h--md\<close> gives the parent \<^verbatim>\<open>Dx\<close>, the separator \<^verbatim>\<open>_\<close>, the property
  \<^verbatim>\<open>Bgc\<close>, the raw value \<^verbatim>\<open>red\<close>, the important marker, the value pseudo \<^verbatim>\<open>:h\<close>, which
  \<^verbatim>\<open>getPseudo\<close> turns into \<^verbatim>\<open>:hover\<close>, and the breakpoint \<^verbatim>\<open>md\<close>.
\<close>

theorem token_decomposition:
  "\<exists>rx r1 r2. getSyntax (Grammar rules_Mb_Bgc_D no_table) False = Some rx \<and>
     XRegExp_exec ''Mb(10px)'' rx = Some r1 \<and>
     named r1 ''prop'' = Some ''Mb'' \<and> named r1 ''atomicValues'' = Some ''10px'' \<and>
     named r1 ''important'' = None \<and>
     XRegExp_exec ''D_Bgc(red)!:h--md'' rx = None \<and>
     XRegExp_exec ''Dx_Bgc(red)!:h--md'' rx = Some r2 \<and>
     named r2 ''parent'' = Some ''Dx'' \<and> named r2 ''parentSep'' = Some ''_'' \<and>
     named r2 ''prop'' = Some ''Bgc'' \<and> named r2 ''atomicValues'' = Some ''red'' \<and>
     named r2 ''important'' = Some ''!'' \<and> named r2 ''valuePseudo'' = Some '':h'' \<and>
     getPseudo '':h'' = Str '':hover'' \<and> named r2 ''breakPoint'' = Some ''md''"
proof -
  have "getPseudo '':h'' = Str '':hover''"
    by code_simp
  with precise_Mb_Bgc_D show ?thesis
    by (auto simp: exec_all_def token_view_def)
qed

text \<open>
  Claim C5 as stated fails: the token \<^verbatim>\<open>D_Bgc(red)!:h--md\<close>, whose parent \<^verbatim>\<open>D\<close> is a single
  letter, is not matched by the precise pattern (nor is it with a backslash before the
  underscore).
\<close>

theorem single_letter_parent_counterexample:
  "\<exists>rx. getSyntax (Grammar rules_Mb_Bgc_D no_table) False = Some rx \<and>
     XRegExp_exec ''D_Bgc(red)!:h--md'' rx = None \<and>
     XRegExp_exec (''D'' @ [bslash] @ ''_Bgc(red)!:h--md'') rx = None"
  using precise_Mb_Bgc_D by (auto simp: exec_all_def token_view_def)

text \<open>
  Claim C6 (the code differs). For every entry of the table \<^verbatim>\<open>getPseudo\<close> gives the
  canonical name for the canonical name and for the alias, and \<^verbatim>\<open>getPseudo("bogus")\<close> is
  \<^verbatim>\<open>undefined\<close>. But the table is a plain object and is read with \<^verbatim>\<open>PSEUDOS[pseudoName]\<close>:
  a name that \<^verbatim>\<open>Object.prototype\<close> defines is found there, so \<^verbatim>\<open>getPseudo("constructor")\<close>
  is \<^verbatim>\<open>"constructor"\<close>, although that name is neither a canonical name nor an alias.
\<close>

theorem getPseudo_inherited_name:
  "list_all (\<lambda>(canonical, alias). getPseudo canonical = Str canonical \<and>
                                   getPseudo alias = Str canonical) PSEUDOS \<and>
   getPseudo ''bogus'' = Undefined \<and>
   ''constructor'' \<notin> set (map fst PSEUDOS @ map snd PSEUDOS) \<and>
   getPseudo ''constructor'' = Str ''constructor''"
  by code_simp

text \<open>
  Claim C7 (the code differs). With the primary table \<open>{Mb, Bgc, D}\<close> the precise pattern
  matches \<^verbatim>\<open>foo:first-child_Bgc(red)\<close>, with the parent pseudo \<^verbatim>\<open>:first-child\<close>, and the
  fast pattern does not match it: the simplified pseudo fragment \<^verbatim>\<open>:[a-z]+\<close> has no hyphen,
  which several names of the pseudo table contain. The fast pattern does match the same
  token with the parent pseudo \<^verbatim>\<open>:hover\<close>.
\<close>

theorem fast_rejects_hyphenated_parent_pseudo:
  "\<exists>precise fast r r'. getSyntax (Grammar rules_Mb_Bgc_D no_table) False = Some precise \<and>
     getSyntax (Grammar rules_Mb_Bgc_D no_table) True = Some fast \<and>
     XRegExp_exec ''foo:first-child_Bgc(red)'' precise = Some r \<and>
     named r ''parentPseudo'' = Some '':first-child'' \<and> named r ''prop'' = Some ''Bgc'' \<and>
     XRegExp_exec ''foo:first-child_Bgc(red)'' fast = None \<and>
     XRegExp_exec ''foo:hover_Bgc(red)'' fast = Some r' \<and>
     named r' ''parentPseudo'' = Some '':hover''"
  using precise_Mb_Bgc_D fast_Mb_Bgc_D by (auto simp: exec_all_def token_view_def)

text \<open>
  Claim C8. For an empty table \<^verbatim>\<open>buildRegex\<close> gives no fragment, whatever its second
  argument, and \<^verbatim>\<open>addSyntaxRegex\<close> pushes nothing: the list of fragments of a grammar with
  one empty table holds the fragment of the other table alone, and that of two empty tables
  is empty. The full pattern of two empty tables is then the pattern without a property part
  (the \<^verbatim>\<open>undefined\<close> of \<^verbatim>\<open>getMainSyntax\<close> is joined as the empty string), and \<^verbatim>\<open>XRegExp\<close>
  compiles it, in both modes; so it does with one empty table and the helper table \<open>{Cf}\<close>.
\<close>

theorem empty_table_is_tolerated:
  "buildRegex ([] :: 'd table) q = None \<and>
   addSyntaxRegex None g = g \<and>
   mainSyntax (Grammar ([] :: 'd table) (t :: 'e table)) =
     (case buildRegex t (Some False) of None \<Rightarrow> [] | Some s \<Rightarrow> [s]) \<and>
   mainSyntax (Grammar t ([] :: 'd table)) =
     (case buildRegex t None of None \<Rightarrow> [] | Some s \<Rightarrow> [s]) \<and>
   mainSyntax (Grammar ([] :: 'd table) ([] :: 'e table)) = [] \<and>
   getMainSyntax (Grammar ([] :: 'd table) ([] :: 'e table)) False = None \<and>
   getSyntax_source (Grammar ([] :: 'd table) ([] :: 'e table)) False =
     concat [GRAMMAR_BOUNDARY,
             ''(?<parentSelector>'', GRAMMAR_PARENT_SELECTOR, '')?'',
             ''(?<important>'', GRAMMAR_IMPORTANT, '')?'',
             ''(?<valuePseudo>'', GRAMMAR_PSEUDO, '')?'',
             ''(?:'', GRAMMAR_BREAKPOINT, '')?''] \<and>
   getSyntax (Grammar no_table no_table) False \<noteq> None \<and>
   getSyntax (Grammar no_table no_table) True \<noteq> None \<and>
   getSyntax (Grammar no_table helpers_Cf) False \<noteq> None"
proof -
  have b: "buildRegex ([] :: 'a table) q' = None" for q'
    by (simp add: buildRegex_def getSortedKeys_def sorted_keys_def sort_by_def Object_keys_def)
  have ne: "buildRegex t q' \<noteq> Some []" for q'
    by (simp add: buildRegex_def Let_def)
  have 1: "mainSyntax (Grammar ([] :: 'd table) t) =
     (case buildRegex t (Some False) of None \<Rightarrow> [] | Some s \<Rightarrow> [s])"
    using ne[of "Some False"]
    by (cases "buildRegex t (Some False)") (simp_all add: Grammar_def b addSyntaxRegex_def)
  have 2: "mainSyntax (Grammar t ([] :: 'd table)) =
     (case buildRegex t None of None \<Rightarrow> [] | Some s \<Rightarrow> [s])"
    using ne[of None]
    by (cases "buildRegex t None") (simp_all add: Grammar_def b addSyntaxRegex_def)
  have 3: "mainSyntax (Grammar ([] :: 'd table) ([] :: 'e table)) = []"
    by (simp add: Grammar_def b addSyntaxRegex_def)
  have 4: "getMainSyntax (Grammar ([] :: 'd table) ([] :: 'e table)) False = None"
    by (simp add: getMainSyntax_def 3)
  have 5: "getSyntax_source (Grammar ([] :: 'd table) ([] :: 'e table)) False =
     concat [GRAMMAR_BOUNDARY,
             ''(?<parentSelector>'', GRAMMAR_PARENT_SELECTOR, '')?'',
             ''(?<important>'', GRAMMAR_IMPORTANT, '')?'',
             ''(?<valuePseudo>'', GRAMMAR_PSEUDO, '')?'',
             ''(?:'', GRAMMAR_BREAKPOINT, '')?'']"
    by (simp add: getSyntax_source_def 4)
  have 6: "getSyntax (Grammar no_table no_table) False \<noteq> None"
    using precise_empty by (auto simp: exec_all_def)
  have 7: "getSyntax (Grammar no_table no_table) True \<noteq> None"
    using fast_empty by (auto simp: exec_all_def)
  have 8: "getSyntax (Grammar no_table helpers_Cf) False \<noteq> None"
    using precise_helpers_Cf by (auto simp: exec_all_def)
  show ?thesis
    using b[of q] 1 2 3 4 5 6 7 8 by (simp add: addSyntaxRegex_def)
qed

text \<open>
  Claim C9, as the code has it. The \<^verbatim>\<open>HEX\<close> fragment reads lowercase hexadecimal digits only.
  For every payload made of \<^verbatim>\<open>#\<close> and 3 or 6 hexadecimal digits, up to letter case, of which
  at least one is a capital letter, \<^verbatim>\<open>matchValue\<close> returns a match, and that match is a Color
  exactly when there are 6 digits, the first three are lowercase hexadecimal digits and the
  fourth is a decimal digit; then it is the color of the first three digits alone, at index 0.
\<close>

theorem uppercase_hex_digits:
  assumes "length ds = 3 \<or> length ds = 6"
    and "\<forall>d\<in>set ds. is_hex_any d"
    and "\<exists>d\<in>set ds. is_upper_hex d"
  shows "\<exists>r. matchValue (CHR ''#'' # ds) = Some r \<and>
     ((named r ''hex'' \<noteq> None) =
        (length ds = 6 \<and> (\<forall>d\<in>set (take 3 ds). is_lower_hex d) \<and> is_digit (ds ! 3))) \<and>
     (named r ''hex'' \<noteq> None \<longrightarrow>
        index r = 0 \<and> matched r = CHR ''#'' # take 3 ds \<and>
        named r ''hex'' = Some (CHR ''#'' # take 3 ds))"
  using assms by (rule uppercase_hex_color)

text \<open>The theorem of C9 at the payload \<^verbatim>\<open>#FFF\<close>: the match is not a Color.\<close>

theorem uppercase_hex_digits_witness:
  "length ''FFF'' = 3 \<and> list_all is_hex_any ''FFF'' \<and> list_ex is_upper_hex ''FFF'' \<and>
   (\<exists>r. matchValue ''#FFF'' = Some r \<and> named r ''hex'' = None)"
proof -
  have h: "is_upper_hex CHR ''F''" "is_hex_any CHR ''F''"
    by (simp_all add: is_hex_any_def is_upper_hex_def code_def)
  have "\<exists>r. matchValue (CHR ''#'' # ''FFF'') = Some r \<and>
     ((named r ''hex'' \<noteq> None) =
        (length ''FFF'' = 6 \<and> (\<forall>d\<in>set (take 3 ''FFF''). is_lower_hex d) \<and> is_digit (''FFF'' ! 3))) \<and>
     (named r ''hex'' \<noteq> None \<longrightarrow>
        index r = 0 \<and> matched r = CHR ''#'' # take 3 ''FFF'' \<and>
        named r ''hex'' = Some (CHR ''#'' # take 3 ''FFF''))"
    by (rule uppercase_hex_digits) (simp_all add: h)
  then show ?thesis by (auto simp: h)
qed

text \<open>
  Claim C9 as stated fails: the payload \<^verbatim>\<open>#abc1EF\<close> is a 6-digit hexadecimal literal up to
  letter case, two of its digits are capital letters, and \<^verbatim>\<open>matchValue\<close> returns the Color
  \<^verbatim>\<open>#abc\<close>.
\<close>

theorem uppercase_hex_color_counterexample:
  "\<exists>r. matchValue ''#abc1EF'' = Some r \<and> index r = 0 \<and> matched r = ''#abc'' \<and>
     named r ''hex'' = Some ''#abc'' \<and> named r ''alpha'' = None"
proof -
  have "map_option value_view (matchValue ''#abc1EF'') =
      Some (0, ''#abc'', [None, None, None, Some ''#abc'', None, None, None, None])"
    by code_simp
  then show ?thesis
    by (auto simp: value_view_def)
qed

text \<open>
  Claim C10. The fractional part of the \<^verbatim>\<open>NUMBER\<close> fragment is separated by a bare dot of the
  pattern syntax, which stands for any character: \<^verbatim>\<open>matchValue("1x5")\<close> is a Number match
  whose \<^verbatim>\<open>number\<close> is the whole input \<^verbatim>\<open>1x5\<close>, with no unit, and the fragment compiles to
  digits, an optional group of any one character and digits, or a dot and digits.
\<close>

theorem number_separator_is_any_character:
  "(\<exists>r. matchValue ''1x5'' = Some r \<and> index r = 0 \<and> matched r = ''1x5'' \<and>
        named r ''number'' = Some ''1x5'' \<and> named r ''unit'' = None \<and>
        named r ''fraction'' = None \<and> named r ''hex'' = None \<and> named r ''named'' = None) \<and>
   map_option re (XRegExp GRAMMAR_NUMBER False) =
     Some (Alt (Seq (Repeat (Chr CHR ''-'') 0 (Some 1) True)
                 (Seq (Repeat (Cls False digit_items) 1 None True)
                   (Repeat (Seq Dot (Repeat (Cls False digit_items) 1 None True))
                      0 (Some 1) True)))
               (Seq (Chr CHR ''.'') (Repeat (Cls False digit_items) 1 None True)))"
proof -
  have "map_option value_view (matchValue ''1x5'') =
          Some (0, ''1x5'', [None, None, None, None, None, Some ''1x5'', None, None])"
    by code_simp
  then have "\<exists>r. matchValue ''1x5'' = Some r \<and> index r = 0 \<and> matched r = ''1x5'' \<and>
        named r ''number'' = Some ''1x5'' \<and> named r ''unit'' = None \<and>
        named r ''fraction'' = None \<and> named r ''hex'' = None \<and> named r ''named'' = None"
    by (auto simp: value_view_def)
  moreover have "map_option re (XRegExp GRAMMAR_NUMBER False) =
     Some (Alt (Seq (Repeat (Chr CHR ''-'') 0 (Some 1) True)
                 (Seq (Repeat (Cls False digit_items) 1 None True)
                   (Repeat (Seq Dot (Repeat (Cls False digit_items) 1 None True))
                      0 (Some 1) True)))
               (Seq (Chr CHR ''.'') (Repeat (Cls False digit_items) 1 None True)))"
    by code_simp
  ultimately show ?thesis by blast
qed

end
